theory Spec2Isabelle
  imports Main
begin

section \<open>The CKEditor 4 Angular component: data model\<close>

text \<open>
  The component (class \<open>CKEditorComponent\<close>) is an adapter between the host framework and
  an editor object of the external CKEditor 4 library. The component's own fields and
  methods are translated from the source. The editor library is not part of the
  repository: an editor object is modelled by the few properties the component reads
  (\<open>getData()\<close>, \<open>readOnly\<close>, \<open>undoManager\<close>), the listeners the component registers with
  \<open>on\<close>, and the completion callbacks it passes to \<open>setData\<close>. What the library decides
  on its own (the content after a push, the defaults of a fresh editor, when an event
  fires) is never fixed by the model: it is a parameter of the function or of the event
  concerned. The calls the component makes have their documented effect: \<open>setReadOnly\<close>
  sets the flag (to true when its argument is null or undefined, the library's default
  for an omitted argument), \<open>on\<close> appends a listener, \<open>fire\<close> calls the listeners of that name in the
  order of registration, \<open>lock\<close> and \<open>unlock\<close> count, \<open>destroy\<close> drops the listeners and
  the pending callbacks.

  Every call that leaves the component (a call into the library, an \<open>EventEmitter.emit\<close>,
  a registered callback, a zone entry, \<open>console.error\<close>) is appended to a trace, in program
  order.
\<close>

datatype editorType = CLASSIC | INLINE

text \<open>
  The TypeScript source is compiled without strict null checks, so an input typed
  \<open>string\<close> or \<open>boolean\<close> can also be \<open>null\<close> or \<open>undefined\<close>, and the code tells the
  two apart (\<open>!== null\<close>, \<open>===\<close>). Equality of \<open>'a js\<close> is the strict equality of these
  values.
\<close>

datatype 'a js = Null | Undefined | Val 'a

text \<open>The component's outputs (its \<open>EventEmitter\<close> fields); \<open>dataChange\<close> carries the data.\<close>

datatype notification =
    NamespaceLoaded | Ready | DataReady | Change | DataChange string
  | DragStart | DragEnd | Drop | FileUploadResponse | FileUploadRequest
  | Focus | Paste | AfterPaste | Blur

text \<open>
  The closures that \<open>subscribe\<close> hands to \<open>editor.on\<close>: eight plain relays, the blur
  relay (which also calls \<open>onTouched\<close>) and the bound method \<open>propagateChange\<close>.
\<close>

datatype relayed =
    RFocus | RPaste | RAfterPaste | RDragEnd | RDragStart | RDrop
  | RFileUploadRequest | RFileUploadResponse

datatype handler = Relay relayed | BlurRelay | PropagateChange

datatype error = TypeError

datatype effect =
    Emit notification
  | CallOnChange nat string
  | CallOnTouched nat
  | CallUserInstanceReady nat
  | ZoneRunEnter | ZoneRunLeave
  | OutsideEnter | OutsideLeave
  | GetEditorNamespace string
  | CreateElement string
  | CKReplace nat | CKInline nat
  | EdSetData nat "string js" bool
  | EdSetReadOnly nat "bool js"
  | EdLock nat | EdUnlock nat
  | EdFire nat string
  | EdOn nat string handler
  | EdDestroy nat
  | ConsoleError string
  | Uncaught error

datatype status = Unloaded | IsReady | Destroyed

text \<open>
  An editor object of the library. \<open>undoManager\<close> is \<open>None\<close> when the undo plugin is
  not loaded, otherwise it counts the outstanding \<open>lock()\<close> calls. \<open>callbacks\<close> counts the
  completion callbacks given to \<open>setData\<close> that the library has not yet called.
  \<open>userInstanceReadyCallback\<close> is the constant of that name captured by the
  \<open>instanceReady\<close> closure which \<open>createEditor\<close> installs in the editor's configuration.
\<close>

record editor =
  content :: string
  readOnly :: bool
  undoManager :: "nat option"
  listeners :: "(string \<times> handler) list"
  callbacks :: nat
  status :: status
  userInstanceReadyCallback :: "nat option"

text \<open>
  The component together with the objects it refers to. \<open>priv_readOnly\<close>, \<open>priv_data\<close> and
  \<open>priv_destroyed\<close> are the fields \<open>_readOnly\<close>, \<open>_data\<close> and \<open>_destroyed\<close>;
  \<open>editorInstance\<close> is \<open>this.instance\<close>, a reference (\<open>None\<close> for null or undefined) into the
  store \<open>editors\<close>; \<open>created\<close> is the number of editor objects made so far, the next free
  address. Callbacks are opaque and are named by a number. \<open>resolutions\<close> counts the
  continuations that \<open>ngAfterViewInit\<close> attached to the namespace promise and that have
  not run yet.
\<close>

record state =
  config_on_instanceReady :: "nat option"
  editorUrl :: string
  tagName :: string
  type' :: editorType
  priv_readOnly :: "bool js"
  priv_data :: "string js"
  priv_destroyed :: bool
  editorInstance :: "nat option"
  onChange :: "nat option"
  onTouched :: "nat option"
  editors :: "nat \<Rightarrow> editor"
  created :: nat
  resolutions :: nat
  trace :: "effect list"

text \<open>A thrown exception carries the state at the throw.\<close>

type_synonym result = "(error \<times> state) + state"

section \<open>Calls into the library and into the zone\<close>

definition emit :: "effect list \<Rightarrow> state \<Rightarrow> state" where
  "emit es s = s\<lparr>trace := trace s @ es\<rparr>"

definition upd :: "nat \<Rightarrow> (editor \<Rightarrow> editor) \<Rightarrow> state \<Rightarrow> state" where
  "upd a f s = s\<lparr>editors := (editors s)(a := f (editors s a))\<rparr>"

text \<open>
  \<open>editor.setData(v)\<close>: \<open>echo\<close> is the content the library holds when the call returns
  (it may filter the value, or load it later).
\<close>

definition ed_setData :: "nat \<Rightarrow> string js \<Rightarrow> string \<Rightarrow> state \<Rightarrow> state" where
  "ed_setData a v echo s = upd a (\<lambda>e. e\<lparr>content := echo\<rparr>) (emit [EdSetData a v False] s)"

text \<open>\<open>editor.setData(v, {callback})\<close>: the library will call the callback later.\<close>

definition ed_setData_callback :: "nat \<Rightarrow> string js \<Rightarrow> state \<Rightarrow> state" where
  "ed_setData_callback a v s =
     upd a (\<lambda>e. e\<lparr>callbacks := callbacks e + 1\<rparr>) (emit [EdSetData a v True] s)"

text \<open>\<open>editor.setReadOnly(v)\<close>: the flag the library sets for the argument \<open>v\<close>.\<close>

fun readOnlyFlag :: "bool js \<Rightarrow> bool" where
  "readOnlyFlag (Val b) = b"
| "readOnlyFlag v = True"

definition ed_setReadOnly :: "nat \<Rightarrow> bool js \<Rightarrow> state \<Rightarrow> state" where
  "ed_setReadOnly a v s =
     upd a (\<lambda>e. e\<lparr>readOnly := readOnlyFlag v\<rparr>) (emit [EdSetReadOnly a v] s)"

definition ed_on :: "nat \<Rightarrow> string \<Rightarrow> handler \<Rightarrow> state \<Rightarrow> state" where
  "ed_on a n h s = upd a (\<lambda>e. e\<lparr>listeners := listeners e @ [(n, h)]\<rparr>) (emit [EdOn a n h] s)"

text \<open>\<open>undo && undo.lock()\<close> and \<open>undo && undo.unlock()\<close>.\<close>

definition undo_lock :: "nat \<Rightarrow> state \<Rightarrow> state" where
  "undo_lock a s =
     (case undoManager (editors s a) of
        None \<Rightarrow> s
      | Some n \<Rightarrow> upd a (\<lambda>e. e\<lparr>undoManager := Some (n + 1)\<rparr>) (emit [EdLock a] s))"

definition undo_unlock :: "nat \<Rightarrow> state \<Rightarrow> state" where
  "undo_unlock a s =
     (case undoManager (editors s a) of
        None \<Rightarrow> s
      | Some n \<Rightarrow> upd a (\<lambda>e. e\<lparr>undoManager := Some (n - 1)\<rparr>) (emit [EdUnlock a] s))"

text \<open>\<open>editor.destroy()\<close>: the library drops the editor's listeners and pending callbacks.\<close>

definition ed_destroy :: "nat \<Rightarrow> state \<Rightarrow> state" where
  "ed_destroy a s =
     upd a (\<lambda>e. e\<lparr>listeners := [], callbacks := 0, status := Destroyed\<rparr>) (emit [EdDestroy a] s)"

definition runOutsideAngular :: "(state \<Rightarrow> state) \<Rightarrow> state \<Rightarrow> state" where
  "runOutsideAngular f s = emit [OutsideLeave] (f (emit [OutsideEnter] s))"

section \<open>The component's methods\<close>

text \<open>\<open>set data(data)\<close>, lines 140 to 151.\<close>

definition set_data :: "string js \<Rightarrow> string \<Rightarrow> state \<Rightarrow> state" where
  "set_data v echo s =
     (if v = priv_data s then s
      else case editorInstance s of
             Some a \<Rightarrow>
               (let s1 = ed_setData a v echo s
                in s1\<lparr>priv_data := Val (content (editors s1 a))\<rparr>)
           | None \<Rightarrow> s\<lparr>priv_data := v\<rparr>)"

definition get_data :: "state \<Rightarrow> string js" where
  "get_data s = priv_data s"

text \<open>\<open>set readOnly(isReadOnly)\<close> and \<open>get readOnly()\<close>, lines 161 to 174.\<close>

definition set_readOnly :: "bool js \<Rightarrow> state \<Rightarrow> state" where
  "set_readOnly isReadOnly s =
     (case editorInstance s of
        Some a \<Rightarrow> ed_setReadOnly a isReadOnly s
      | None \<Rightarrow> s\<lparr>priv_readOnly := isReadOnly\<rparr>)"

definition get_readOnly :: "state \<Rightarrow> bool js" where
  "get_readOnly s =
     (case editorInstance s of
        Some a \<Rightarrow> Val (readOnly (editors s a))
      | None \<Rightarrow> priv_readOnly s)"

definition writeValue :: "string js \<Rightarrow> string \<Rightarrow> state \<Rightarrow> state" where
  "writeValue v echo s = set_data v echo s"

definition registerOnChange :: "nat \<Rightarrow> state \<Rightarrow> state" where
  "registerOnChange callback s = s\<lparr>onChange := Some callback\<rparr>"

definition registerOnTouched :: "nat \<Rightarrow> state \<Rightarrow> state" where
  "registerOnTouched callback s = s\<lparr>onTouched := Some callback\<rparr>"

text \<open>
  \<open>propagateChange(event)\<close>, lines 319 to 337. \<open>this.instance.getData()\<close> throws a
  TypeError when \<open>this.instance\<close> is null.
\<close>

definition propagateChange :: "string \<Rightarrow> state \<Rightarrow> result" where
  "propagateChange name s =
     (let s0 = emit [ZoneRunEnter] s in
      case editorInstance s0 of
        None \<Rightarrow> Inl (TypeError, s0)
      | Some i \<Rightarrow>
         (let newData = content (editors s0 i);
              s1 = (if name = ''change'' then emit [Emit Change] s0
                    else if name = ''dataReady'' then emit [Emit DataReady] s0
                    else s0)
          in if Val newData = get_data s1 then Inr (emit [ZoneRunLeave] s1)
             else
               (let s2 = emit [Emit (DataChange newData)] (s1\<lparr>priv_data := Val newData\<rparr>);
                    s3 = (case onChange s2 of
                            Some f \<Rightarrow> emit [CallOnChange f newData] s2
                          | None \<Rightarrow> s2)
                in Inr (emit [ZoneRunLeave] s3))))"

fun relay_output :: "relayed \<Rightarrow> notification" where
  "relay_output RFocus = Focus"
| "relay_output RPaste = Paste"
| "relay_output RAfterPaste = AfterPaste"
| "relay_output RDragEnd = DragEnd"
| "relay_output RDragStart = DragStart"
| "relay_output RDrop = Drop"
| "relay_output RFileUploadRequest = FileUploadRequest"
| "relay_output RFileUploadResponse = FileUploadResponse"

text \<open>One listener called with an event of the given name.\<close>

fun handle :: "handler \<Rightarrow> string \<Rightarrow> state \<Rightarrow> result" where
  "handle (Relay r) name s = Inr (emit [ZoneRunEnter, Emit (relay_output r), ZoneRunLeave] s)"
| "handle BlurRelay name s =
     Inr (emit ([ZoneRunEnter]
                @ (case onTouched s of Some f \<Rightarrow> [CallOnTouched f] | None \<Rightarrow> [])
                @ [Emit Blur, ZoneRunLeave]) s)"
| "handle PropagateChange name s = propagateChange name s"

text \<open>
  The library's event dispatch: the listeners registered for the name are called in the
  order of registration; an exception of a listener ends the dispatch.
\<close>

fun dispatch :: "(string \<times> handler) list \<Rightarrow> string \<Rightarrow> state \<Rightarrow> result" where
  "dispatch [] name s = Inr s"
| "dispatch ((n, h) # ls) name s =
     (if n = name
      then (case handle h name s of
              Inl e \<Rightarrow> Inl e
            | Inr s' \<Rightarrow> dispatch ls name s')
      else dispatch ls name s)"

text \<open>\<open>editor.fire(name)\<close>.\<close>

definition fire :: "nat \<Rightarrow> string \<Rightarrow> state \<Rightarrow> result" where
  "fire a name s = dispatch (listeners (editors s a)) name (emit [EdFire a name] s)"

text \<open>\<open>subscribe(editor)\<close>, lines 261 to 318.\<close>

definition relays :: "(string \<times> handler) list" where
  "relays =
     [(''focus'', Relay RFocus), (''paste'', Relay RPaste), (''afterPaste'', Relay RAfterPaste),
      (''dragend'', Relay RDragEnd), (''dragstart'', Relay RDragStart), (''drop'', Relay RDrop),
      (''fileUploadRequest'', Relay RFileUploadRequest),
      (''fileUploadResponse'', Relay RFileUploadResponse),
      (''blur'', BlurRelay)]"

definition subscribe :: "nat \<Rightarrow> state \<Rightarrow> result" where
  "subscribe a s =
     (let s1 = fold (\<lambda>(n, h). ed_on a n h) relays s;
          s2 = ed_on a ''dataReady'' PropagateChange s1
      in case editorInstance s2 of
           None \<Rightarrow> Inl (TypeError, s2)
         | Some i \<Rightarrow>
             (if undoManager (editors s2 i) \<noteq> None
              then Inr (ed_on a ''change'' PropagateChange s2)
              else Inr (ed_on a ''selectionCheck'' PropagateChange s2)))"

text \<open>
  The body that both branches of the \<open>instanceReady\<close> handler pass to \<open>ngZone.run\<close>,
  lines 237 to 242 and 246 to 251.
\<close>

definition emitReady :: "nat option \<Rightarrow> state \<Rightarrow> state" where
  "emitReady userCallback s =
     emit ([ZoneRunEnter]
           @ (case userCallback of Some f \<Rightarrow> [CallUserInstanceReady f] | None \<Rightarrow> [])
           @ [Emit Ready, ZoneRunLeave]) s"

text \<open>
  The handler \<open>config.on.instanceReady\<close>, lines 221 to 253, up to the point where it
  returns; \<open>a\<close> is \<open>evt.editor\<close>.
\<close>

definition instanceReady :: "nat \<Rightarrow> state \<Rightarrow> result" where
  "instanceReady a s =
     (let s1 = s\<lparr>editorInstance := Some a\<rparr>;
          s2 = set_readOnly (if priv_readOnly s1 \<noteq> Null
                             then priv_readOnly s1
                             else Val (readOnly (editors s1 a))) s1
      in case subscribe a s2 of
           Inl e \<Rightarrow> Inl e
         | Inr s3 \<Rightarrow>
             (if get_data s3 \<noteq> Null
              then Inr (ed_setData_callback a (get_data s3) (undo_lock a s3))
              else Inr (emitReady (userInstanceReadyCallback (editors s3 a)) s3)))"

text \<open>
  The completion callback given to \<open>editor.setData\<close>, lines 230 to 243, run by the
  library when the push is done.
\<close>

definition setData_callback :: "nat \<Rightarrow> state \<Rightarrow> result" where
  "setData_callback a s =
     (case (if get_data s \<noteq> Val (content (editors s a))
            then (if undoManager (editors s a) \<noteq> None
                  then fire a ''change'' s
                  else fire a ''dataReady'' s)
            else Inr s) of
        Inl e \<Rightarrow> Inl e
      | Inr s1 \<Rightarrow>
          Inr (emitReady (userInstanceReadyCallback (editors s1 a)) (undo_unlock a s1)))"

text \<open>
  \<open>createEditor()\<close>, lines 205 to 260: the three arguments are the content, the read-only
  default and the presence of the undo plugin of the editor object that the library
  builds. The function reads the user's \<open>config.on.instanceReady\<close> before it installs its
  own handler in the merged configuration; the user's function is external code and is
  represented by the call alone.
\<close>

definition new_editor :: "string \<Rightarrow> bool \<Rightarrow> bool \<Rightarrow> nat option \<Rightarrow> editor" where
  "new_editor c ro undo userCallback =
     \<lparr>content = c, readOnly = ro, undoManager = (if undo then Some 0 else None),
      listeners = [], callbacks = 0, status = Unloaded,
      userInstanceReadyCallback = userCallback\<rparr>"

definition createEditor :: "string \<Rightarrow> bool \<Rightarrow> bool \<Rightarrow> state \<Rightarrow> state" where
  "createEditor c ro undo s =
     (let a = created s;
          s1 = emit [CreateElement (tagName s)] s;
          s2 = s1\<lparr>editors := (editors s1)(a := new_editor c ro undo (config_on_instanceReady s1)),
                  created := a + 1\<rparr>
      in emit [if type' s2 = INLINE then CKInline a else CKReplace a] s2)"

text \<open>\<open>ngAfterViewInit()\<close>, lines 175 to 186, and its three continuations.\<close>

definition ngAfterViewInit :: "state \<Rightarrow> state" where
  "ngAfterViewInit s = emit [GetEditorNamespace (editorUrl s)] (s\<lparr>resolutions := resolutions s + 1\<rparr>)"

definition onNamespaceLoaded :: "state \<Rightarrow> state" where
  "onNamespaceLoaded s = emit [Emit NamespaceLoaded] s"

definition thenCallback :: "string \<Rightarrow> bool \<Rightarrow> bool \<Rightarrow> state \<Rightarrow> state" where
  "thenCallback c ro undo s =
     (if priv_destroyed s then s
      else runOutsideAngular (createEditor c ro undo) s)"

definition catchCallback :: "string \<Rightarrow> state \<Rightarrow> state" where
  "catchCallback reason s = emit [ConsoleError reason] s"

text \<open>
  \<open>ngOnDestroy()\<close>, lines 187 to 195, statement by statement: the states the method
  passes through, in program order. The first is the state after line 188, the second
  the state on entry of the closure given to \<open>runOutsideAngular\<close>, the third after
  \<open>this.instance.destroy()\<close> (line 191), the fourth after \<open>this.instance = null\<close>
  (line 192), the last on return. The method's result is the last of them.
\<close>

definition ngOnDestroy_states :: "state \<Rightarrow> state list" where
  "ngOnDestroy_states s =
     (let s1 = s\<lparr>priv_destroyed := True\<rparr>;
          s2 = emit [OutsideEnter] s1;
          s3 = (case editorInstance s2 of
                  Some a \<Rightarrow> ed_destroy a s2
                | None \<Rightarrow> s2);
          s4 = (case editorInstance s2 of
                  Some a \<Rightarrow> s3\<lparr>editorInstance := None\<rparr>
                | None \<Rightarrow> s3);
          s5 = emit [OutsideLeave] s4
      in [s1, s2, s3, s4, s5])"

definition ngOnDestroy :: "state \<Rightarrow> state" where
  "ngOnDestroy s = last (ngOnDestroy_states s)"

section \<open>The environment: host framework, namespace loader and editor library\<close>

text \<open>
  The component is driven by the host framework (inputs, lifecycle hooks, the forms
  contract) and by the continuations it handed out: the namespace promise settles, the
  library reports an editor ready, finishes a push, fires a native event. Each of these is
  an event; the content the editor holds at a library event is part of the event.
\<close>

datatype event =
    EvConfig "nat option"
  | EvEditorUrl string
  | EvTagName string
  | EvType editorType
  | EvSetData "string js" string
  | EvSetReadOnly "bool js"
  | EvWriteValue "string js" string
  | EvRegisterOnChange nat
  | EvRegisterOnTouched nat
  | EvAfterViewInit
  | EvOnDestroy
  | EvNamespaceLoaded
  | EvResolved string bool bool
  | EvRejected string
  | EvInstanceReady nat
  | EvPushDone nat string
  | EvNative nat string string

text \<open>An exception that reaches the event loop is reported there; the state stays as the
  throw left it.\<close>

fun settle :: "result \<Rightarrow> state" where
  "settle (Inl (e, s)) = emit [Uncaught e] s"
| "settle (Inr s) = s"

text \<open>The library has finished a push: the editor holds content \<open>c\<close> and one completion
  callback is due.\<close>

definition pushCompleted :: "nat \<Rightarrow> string \<Rightarrow> state \<Rightarrow> state" where
  "pushCompleted a c s = upd a (\<lambda>e. e\<lparr>content := c, callbacks := callbacks e - 1\<rparr>) s"

text \<open>
  A promise continuation runs only if one is pending, and once. The library reports
  an editor ready once, calls a completion callback it was given once, and fires native
  events on a ready editor only.
\<close>

fun step :: "event \<Rightarrow> state \<Rightarrow> state" where
  "step (EvConfig f) s = s\<lparr>config_on_instanceReady := f\<rparr>"
| "step (EvEditorUrl u) s = s\<lparr>editorUrl := u\<rparr>"
| "step (EvTagName t) s = s\<lparr>tagName := t\<rparr>"
| "step (EvType t) s = s\<lparr>type' := t\<rparr>"
| "step (EvSetData v echo) s = set_data v echo s"
| "step (EvSetReadOnly b) s = set_readOnly b s"
| "step (EvWriteValue v echo) s = writeValue v echo s"
| "step (EvRegisterOnChange f) s = registerOnChange f s"
| "step (EvRegisterOnTouched f) s = registerOnTouched f s"
| "step EvAfterViewInit s = ngAfterViewInit s"
| "step EvOnDestroy s = ngOnDestroy s"
| "step EvNamespaceLoaded s = onNamespaceLoaded s"
| "step (EvResolved c ro undo) s =
     (if resolutions s = 0 then s
      else thenCallback c ro undo (s\<lparr>resolutions := resolutions s - 1\<rparr>))"
| "step (EvRejected reason) s =
     (if resolutions s = 0 then s
      else catchCallback reason (s\<lparr>resolutions := resolutions s - 1\<rparr>))"
| "step (EvInstanceReady a) s =
     (if a < created s \<and> status (editors s a) = Unloaded
      then settle (instanceReady a (upd a (\<lambda>e. e\<lparr>status := IsReady\<rparr>) s))
      else s)"
| "step (EvPushDone a c) s =
     (if a < created s \<and> 0 < callbacks (editors s a)
      then settle (setData_callback a (pushCompleted a c s))
      else s)"
| "step (EvNative a name c) s =
     (if a < created s \<and> status (editors s a) = IsReady
      then (let s1 = upd a (\<lambda>e. e\<lparr>content := c\<rparr>) s
            in settle (dispatch (listeners (editors s1 a)) name s1))
      else s)"

definition run :: "event list \<Rightarrow> state \<Rightarrow> state" where
  "run evs s = fold step evs s"

text \<open>The state the constructor leaves, lines 10 to 132, with no editor object yet.\<close>

definition constructed :: state where
  "constructed =
     \<lparr>config_on_instanceReady = None,
      editorUrl = ''https://cdn.ckeditor.com/4.24.0-lts/standard-all/ckeditor.js'',
      tagName = ''textarea'',
      type' = CLASSIC,
      priv_readOnly = Null,
      priv_data = Null,
      priv_destroyed = False,
      editorInstance = None,
      onChange = None,
      onTouched = None,
      editors = (\<lambda>a. new_editor [] False False None),
      created = 0,
      resolutions = 0,
      trace = []\<rparr>"

text \<open>The trace entries added between a state and a later one.\<close>

definition added :: "state \<Rightarrow> state \<Rightarrow> effect list" where
  "added s s' = drop (length (trace s)) (trace s')"

section \<open>Notions used in the statements\<close>

text \<open>The state a call leaves behind, whether it returned or threw.\<close>

fun state_of :: "result \<Rightarrow> state" where
  "state_of (Inl (e, s)) = s"
| "state_of (Inr s) = s"

text \<open>
  The trace entries a listener can add: zone entries, the relayed notifications, the
  typed and the generic change notification, and the two forms callbacks. The ready and
  the namespace notification are not among them.
\<close>

fun relayed_effect :: "effect \<Rightarrow> bool" where
  "relayed_effect (Emit Ready) = False"
| "relayed_effect (Emit NamespaceLoaded) = False"
| "relayed_effect (Emit n) = True"
| "relayed_effect (CallOnChange f d) = True"
| "relayed_effect (CallOnTouched f) = True"
| "relayed_effect ZoneRunEnter = True"
| "relayed_effect ZoneRunLeave = True"
| "relayed_effect e = False"

text \<open>A listener changes \<open>_data\<close> and the trace, and nothing else.\<close>

definition notified :: "state \<Rightarrow> state \<Rightarrow> bool" where
  "notified s s' \<longleftrightarrow>
     config_on_instanceReady s' = config_on_instanceReady s \<and> editorUrl s' = editorUrl s \<and>
     tagName s' = tagName s \<and> type' s' = type' s \<and> priv_readOnly s' = priv_readOnly s \<and>
     priv_destroyed s' = priv_destroyed s \<and> editorInstance s' = editorInstance s \<and>
     onChange s' = onChange s \<and> onTouched s' = onTouched s \<and> editors s' = editors s \<and>
     created s' = created s \<and> resolutions s' = resolutions s \<and>
     (\<exists>t. trace s' = trace s @ t \<and> list_all relayed_effect t)"

text \<open>The typed notification of \<open>propagateChange\<close>, by the name of the native event.\<close>

definition kind :: "string \<Rightarrow> effect list" where
  "kind name =
     (if name = ''change'' then [Emit Change]
      else if name = ''dataReady'' then [Emit DataReady]
      else [])"

fun is_dataChange :: "effect \<Rightarrow> bool" where
  "is_dataChange (Emit (DataChange d)) = True"
| "is_dataChange e = False"

definition dataChanges :: "effect list \<Rightarrow> nat" where
  "dataChanges t = length (filter is_dataChange t)"

text \<open>Consecutive firings of the change handler, with nothing in between.\<close>

fun firings :: "string list \<Rightarrow> state \<Rightarrow> result" where
  "firings [] s = Inr s"
| "firings (n # ns) s =
     (case propagateChange n s of
        Inl e \<Rightarrow> Inl e
      | Inr s' \<Rightarrow> firings ns s')"

text \<open>The listeners that \<open>subscribe\<close> registers, in order.\<close>

definition subscriptions :: "bool \<Rightarrow> (string \<times> handler) list" where
  "subscriptions undo =
     relays @ [(''dataReady'', PropagateChange),
               (if undo then ''change'' else ''selectionCheck'', PropagateChange)]"

text \<open>The trace of the ready notification, with the user's callback before it.\<close>

definition readyEffects :: "nat option \<Rightarrow> effect list" where
  "readyEffects userCallback =
     [ZoneRunEnter]
     @ (case userCallback of Some f \<Rightarrow> [CallUserInstanceReady f] | None \<Rightarrow> [])
     @ [Emit Ready, ZoneRunLeave]"

fun is_setReadOnly :: "effect \<Rightarrow> bool" where
  "is_setReadOnly (EdSetReadOnly a b) = True"
| "is_setReadOnly e = False"

fun is_push :: "effect \<Rightarrow> bool" where
  "is_push (EdSetData a v cb) = True"
| "is_push e = False"

fun is_fire :: "effect \<Rightarrow> bool" where
  "is_fire (EdFire a n) = True"
| "is_fire e = False"

text \<open>Calls that make an editor object, and exceptions nobody caught.\<close>

fun is_creation :: "effect \<Rightarrow> bool" where
  "is_creation (CKReplace a) = True"
| "is_creation (CKInline a) = True"
| "is_creation e = False"

fun is_uncaught :: "effect \<Rightarrow> bool" where
  "is_uncaught (Uncaught e) = True"
| "is_uncaught e = False"

text \<open>Entries that neither make an editor nor report an uncaught exception.\<close>

definition harmless :: "effect \<Rightarrow> bool" where
  "harmless e \<longleftrightarrow> \<not> is_creation e \<and> \<not> is_uncaught e"

text \<open>The buffer \<open>_readOnly\<close> overwritten, to state that a computation does not read it.\<close>

definition rebuffer :: "bool js \<Rightarrow> state \<Rightarrow> state" where
  "rebuffer x s = s\<lparr>priv_readOnly := x\<rparr>"

fun rebuffer_result :: "bool js \<Rightarrow> result \<Rightarrow> result" where
  "rebuffer_result x (Inl (e, s)) = Inl (e, rebuffer x s)"
| "rebuffer_result x (Inr s) = Inr (rebuffer x s)"

fun is_resolved :: "event \<Rightarrow> bool" where
  "is_resolved (EvResolved c ro undo) = True"
| "is_resolved ev = False"

fun is_instanceReady :: "event \<Rightarrow> bool" where
  "is_instanceReady (EvInstanceReady a) = True"
| "is_instanceReady ev = False"

fun is_setReadOnlyEvent :: "event \<Rightarrow> bool" where
  "is_setReadOnlyEvent (EvSetReadOnly b) = True"
| "is_setReadOnlyEvent ev = False"

text \<open>No \<open>instanceReady\<close> is delivered after a teardown.\<close>

fun no_late_ready :: "event list \<Rightarrow> bool" where
  "no_late_ready [] = True"
| "no_late_ready (ev # evs) =
     ((if ev = EvOnDestroy then filter is_instanceReady evs = [] else True) \<and> no_late_ready evs)"

subsection \<open>Example components\<close>

text \<open>The namespace has been resolved and an editor with the undo plugin created; it is
  not ready yet and no data was buffered.\<close>

definition fresh :: state where
  "fresh = run [EvAfterViewInit, EvResolved ''<p>a</p>'' False True] constructed"

text \<open>An editor with the undo plugin is ready; no data was buffered.\<close>

definition live :: state where
  "live = run [EvAfterViewInit, EvResolved ''<p>a</p>'' False True, EvInstanceReady 0] constructed"

text \<open>
  Data was set before creation, the editor (without the undo plugin) is ready and the
  push has completed with the value unchanged.
\<close>

definition quiet :: state where
  "quiet = run [EvSetData (Val ''a'') [], EvAfterViewInit, EvResolved [] False False,
                EvInstanceReady 0, EvPushDone 0 ''a''] constructed"

text \<open>Data was set before creation; the editor has been created but is not ready yet.\<close>

definition loading :: state where
  "loading = run [EvSetData (Val ''<b>x</b>'') [], EvAfterViewInit,
                  EvResolved [] False True] constructed"

text \<open>The same component after the \<open>instanceReady\<close> handler returned: the push is under way.\<close>

definition pushing :: state where
  "pushing = run [EvInstanceReady 0] loading"

text \<open>Read-only was set to \<open>true\<close> before creation; the editor has been created but is not
  ready yet.\<close>

definition guarded :: state where
  "guarded = run [EvSetReadOnly (Val True), EvAfterViewInit, EvResolved [] False False] constructed"

text \<open>The component \<open>pushing\<close> is torn down before the library completes the push; the
  library then has no callback left to call.\<close>

definition torn :: state where
  "torn = run [EvOnDestroy, EvPushDone 0 ''<b>x</b>''] pushing"

text \<open>The forms layer wrote \<open>undefined\<close> and read-only was bound to \<open>undefined\<close> before the
  editor was created; the editor is not ready yet.\<close>

definition unset :: state where
  "unset = run [EvWriteValue Undefined [], EvSetReadOnly Undefined, EvAfterViewInit,
                EvResolved [] False False] constructed"

text \<open>The component is torn down after the editor was created and before it is ready; the
  library then reports the editor ready.\<close>

definition late :: state where
  "late = run [EvAfterViewInit, EvResolved [] False False, EvOnDestroy, EvInstanceReady 0]
            constructed"

section \<open>Auxiliary facts\<close>

lemmas lib_defs =
  emit_def upd_def ed_setData_def ed_setData_callback_def ed_setReadOnly_def ed_on_def
  undo_lock_def undo_unlock_def ed_destroy_def runOutsideAngular_def

lemmas method_defs =
  set_data_def get_data_def set_readOnly_def get_readOnly_def writeValue_def
  registerOnChange_def registerOnTouched_def propagateChange_def fire_def subscribe_def
  relays_def emitReady_def instanceReady_def setData_callback_def new_editor_def
  createEditor_def ngAfterViewInit_def onNamespaceLoaded_def thenCallback_def
  catchCallback_def ngOnDestroy_states_def ngOnDestroy_def pushCompleted_def

lemma added_trace: "trace s' = trace s @ t \<Longrightarrow> added s s' = t"
  by (simp add: added_def)

lemma added_same [simp]: "added s s = []"
  by (simp add: added_def)

subsection \<open>Listeners\<close>

lemma notified_refl: "notified s s"
  by (simp add: notified_def)

lemma notified_trans: "notified s s1 \<Longrightarrow> notified s1 s2 \<Longrightarrow> notified s s2"
  by (auto simp: notified_def)

lemma relayed_relay_output: "relayed_effect (Emit (relay_output r))"
  by (cases r) simp_all

lemma propagateChange_notified: "notified s (state_of (propagateChange name s))"
  by (simp add: notified_def propagateChange_def get_data_def emit_def Let_def
           split: option.splits)

lemma handle_notified: "notified s (state_of (handle h name s))"
  by (cases h)
     (simp_all add: propagateChange_notified,
      simp_all add: notified_def emit_def relayed_relay_output split: option.splits)

lemma dispatch_notified: "notified s (state_of (dispatch ls name s))"
proof (induction ls arbitrary: s)
  case Nil
  show ?case by (simp add: notified_refl)
next
  case (Cons l ls)
  obtain n h where l: "l = (n, h)" by (cases l)
  show ?case
  proof (cases "n = name")
    case False
    with l Cons.IH show ?thesis by simp
  next
    case True
    show ?thesis
    proof (cases "handle h name s")
      case (Inl e)
      with handle_notified[of s h name] l True show ?thesis by (cases e) simp
    next
      case (Inr s')
      with handle_notified[of s h name] have "notified s s'" by simp
      moreover have "notified s' (state_of (dispatch ls name s'))" by (rule Cons.IH)
      ultimately show ?thesis using l True Inr by (simp add: notified_trans[of s s'])
    qed
  qed
qed

text \<open>While the component holds an instance, no listener throws.\<close>

lemma propagateChange_returns:
  "editorInstance s = Some i \<Longrightarrow> \<exists>s'. propagateChange name s = Inr s'"
  by (simp add: propagateChange_def emit_def Let_def)

lemma handle_returns: "editorInstance s = Some i \<Longrightarrow> \<exists>s'. handle h name s = Inr s'"
  by (cases h) (simp_all add: propagateChange_returns)

lemma dispatch_returns: "editorInstance s = Some i \<Longrightarrow> \<exists>s'. dispatch ls name s = Inr s'"
proof (induction ls arbitrary: s)
  case Nil
  show ?case by simp
next
  case (Cons l ls)
  obtain n h where l: "l = (n, h)" by (cases l)
  from handle_returns[OF Cons.prems, of h name]
  obtain s1 where s1: "handle h name s = Inr s1" by blast
  with handle_notified[of s h name] have "editorInstance s1 = Some i"
    using Cons.prems by (simp add: notified_def)
  from Cons.IH[OF this] Cons.IH[OF Cons.prems] s1 l show ?case by simp
qed

subsection \<open>The change handler\<close>

lemma propagateChange_same:
  assumes "editorInstance s = Some i" and "Val (content (editors s i)) = priv_data s"
  shows "\<exists>s'. propagateChange name s = Inr s' \<and> priv_data s' = priv_data s
            \<and> editors s' = editors s \<and> editorInstance s' = editorInstance s
            \<and> trace s' = trace s @ [ZoneRunEnter] @ kind name @ [ZoneRunLeave]"
  using assms by (simp add: propagateChange_def get_data_def emit_def kind_def Let_def)

lemma propagateChange_differs:
  assumes "editorInstance s = Some i" and "Val (content (editors s i)) \<noteq> priv_data s"
  shows "\<exists>s'. propagateChange name s = Inr s' \<and> priv_data s' = Val (content (editors s i))
            \<and> editors s' = editors s \<and> editorInstance s' = editorInstance s
            \<and> trace s' = trace s @ [ZoneRunEnter] @ kind name
                 @ [Emit (DataChange (content (editors s i)))]
                 @ (case onChange s of
                      Some f \<Rightarrow> [CallOnChange f (content (editors s i))]
                    | None \<Rightarrow> [])
                 @ [ZoneRunLeave]"
  using assms
  by (simp add: propagateChange_def get_data_def emit_def kind_def Let_def split: option.splits)

subsection \<open>The creation handshake\<close>

lemma relayed_no_ready: "list_all relayed_effect t \<Longrightarrow> count_list t (Emit Ready) = 0"
  by (induction t) auto

lemma relayed_no_fire: "list_all relayed_effect t \<Longrightarrow> filter is_fire t = []"
proof (induction t)
  case Nil
  show ?case by simp
next
  case (Cons e t)
  then show ?case by (cases e) simp_all
qed

lemma relayed_no_push: "list_all relayed_effect t \<Longrightarrow> filter is_push t = []"
proof (induction t)
  case Nil
  show ?case by simp
next
  case (Cons e t)
  then show ?case by (cases e) simp_all
qed

lemma count_readyEffects: "count_list (readyEffects u) (Emit Ready) = 1"
  by (simp add: readyEffects_def split: option.splits)

lemma fire_readyEffects: "filter is_fire (readyEffects u) = []"
  by (simp add: readyEffects_def split: option.splits)

lemma push_readyEffects: "filter is_push (readyEffects u) = []"
  by (simp add: readyEffects_def split: option.splits)

lemma subscribe_result:
  assumes "editorInstance s = Some a"
  shows "\<exists>s'. subscribe a s = Inr s' \<and>
     listeners (editors s' a)
       = listeners (editors s a) @ subscriptions (undoManager (editors s a) \<noteq> None) \<and>
     added s s'
       = map (\<lambda>(n, h). EdOn a n h) (subscriptions (undoManager (editors s a) \<noteq> None))"
  using assms
  by (simp add: subscribe_def subscriptions_def relays_def lib_defs added_def Let_def)

lemma instanceReady_null:
  assumes "priv_data s = Null"
  shows "\<exists>s'. instanceReady a s = Inr s' \<and>
     added s s'
       = [EdSetReadOnly a (if priv_readOnly s \<noteq> Null
                           then priv_readOnly s
                           else Val (readOnly (editors s a)))]
         @ map (\<lambda>(n, h). EdOn a n h) (subscriptions (undoManager (editors s a) \<noteq> None))
         @ readyEffects (userInstanceReadyCallback (editors s a))"
  using assms
  by (simp add: instanceReady_def set_readOnly_def get_data_def emitReady_def readyEffects_def
        subscribe_def subscriptions_def relays_def lib_defs added_def Let_def
      split: option.splits)

lemma instanceReady_push:
  assumes "priv_data s \<noteq> Null"
  shows "\<exists>s'. instanceReady a s = Inr s' \<and>
     added s s'
       = [EdSetReadOnly a (if priv_readOnly s \<noteq> Null
                           then priv_readOnly s
                           else Val (readOnly (editors s a)))]
         @ map (\<lambda>(n, h). EdOn a n h) (subscriptions (undoManager (editors s a) \<noteq> None))
         @ (if undoManager (editors s a) \<noteq> None then [EdLock a] else [])
         @ [EdSetData a (priv_data s) True] \<and>
     callbacks (editors s' a) = callbacks (editors s a) + 1 \<and>
     editorInstance s' = Some a \<and> priv_data s' = priv_data s"
  using assms
  by (simp add: instanceReady_def set_readOnly_def get_data_def emitReady_def readyEffects_def
        subscribe_def subscriptions_def relays_def lib_defs added_def Let_def
      split: option.splits)

lemma instanceReady_readOnly:
  "\<exists>s'. instanceReady a s = Inr s' \<and>
     filter is_setReadOnly (added s s')
       = [EdSetReadOnly a (if priv_readOnly s \<noteq> Null
                           then priv_readOnly s
                           else Val (readOnly (editors s a)))] \<and>
     readOnly (editors s' a)
       = readOnlyFlag (if priv_readOnly s \<noteq> Null
                       then priv_readOnly s
                       else Val (readOnly (editors s a))) \<and>
     priv_readOnly s' = priv_readOnly s \<and> editorInstance s' = Some a"
  by (simp add: instanceReady_def set_readOnly_def get_data_def emitReady_def subscribe_def
        relays_def lib_defs added_def Let_def
      split: option.splits)

lemma setData_callback_result:
  assumes "editorInstance s = Some i"
  shows "\<exists>s' mid. setData_callback a s = Inr s' \<and> list_all relayed_effect mid \<and>
     added s s' =
       (if priv_data s \<noteq> Val (content (editors s a))
        then EdFire a (if undoManager (editors s a) \<noteq> None then ''change'' else ''dataReady'')
             # mid
        else [])
       @ (if undoManager (editors s a) \<noteq> None then [EdUnlock a] else [])
       @ readyEffects (userInstanceReadyCallback (editors s a))"
proof (cases "priv_data s \<noteq> Val (content (editors s a))")
  case False
  then have "setData_callback a s
      = Inr (emitReady (userInstanceReadyCallback (editors s a)) (undo_unlock a s))"
    by (simp add: setData_callback_def get_data_def)
  moreover have "added s (emitReady (userInstanceReadyCallback (editors s a)) (undo_unlock a s))
     = (if undoManager (editors s a) \<noteq> None then [EdUnlock a] else [])
       @ readyEffects (userInstanceReadyCallback (editors s a))"
    by (simp add: emitReady_def readyEffects_def lib_defs added_def split: option.splits)
  ultimately show ?thesis using False
    by (intro exI[of _ "[]"]
          exI[of _ "emitReady (userInstanceReadyCallback (editors s a)) (undo_unlock a s)"])
       simp
next
  case True
  let ?name = "if undoManager (editors s a) \<noteq> None then ''change'' else ''dataReady''"
  let ?s0 = "emit [EdFire a ?name] s"
  have i0: "editorInstance ?s0 = Some i" using assms by (simp add: emit_def)
  from dispatch_returns[OF i0, of "listeners (editors s a)" ?name]
  obtain s1 where s1: "dispatch (listeners (editors s a)) ?name ?s0 = Inr s1" by blast
  with dispatch_notified[of ?s0 "listeners (editors s a)" ?name]
  have n: "notified ?s0 s1" by simp
  then obtain mid where mid: "trace s1 = trace ?s0 @ mid" "list_all relayed_effect mid"
    by (auto simp: notified_def)
  from n have ed: "editors s1 = editors s" by (simp add: notified_def emit_def)
  have f: "fire a ?name s = Inr s1"
    using s1 by (simp add: fire_def emit_def)
  have "setData_callback a s
          = Inr (emitReady (userInstanceReadyCallback (editors s1 a)) (undo_unlock a s1))"
    using True f by (simp add: setData_callback_def get_data_def split: if_splits)
  moreover have "added s (emitReady (userInstanceReadyCallback (editors s1 a)) (undo_unlock a s1))
     = EdFire a ?name # mid @ (if undoManager (editors s a) \<noteq> None then [EdUnlock a] else [])
       @ readyEffects (userInstanceReadyCallback (editors s a))"
    using mid ed
    by (simp add: emitReady_def readyEffects_def lib_defs added_def split: option.splits)
  ultimately show ?thesis using True mid(2) by auto
qed

subsection \<open>Computations that do not read the read-only buffer\<close>

lemma rebuffer_fields [simp]:
  "editorInstance (rebuffer x s) = editorInstance s"
  "editors (rebuffer x s) = editors s"
  "priv_data (rebuffer x s) = priv_data s"
  "onChange (rebuffer x s) = onChange s"
  "onTouched (rebuffer x s) = onTouched s"
  "created (rebuffer x s) = created s"
  "resolutions (rebuffer x s) = resolutions s"
  "priv_destroyed (rebuffer x s) = priv_destroyed s"
  "type' (rebuffer x s) = type' s"
  "tagName (rebuffer x s) = tagName s"
  "editorUrl (rebuffer x s) = editorUrl s"
  "config_on_instanceReady (rebuffer x s) = config_on_instanceReady s"
  "trace (rebuffer x s) = trace s"
  by (simp_all add: rebuffer_def)

lemma emit_rebuffer [simp]: "emit es (rebuffer x s) = rebuffer x (emit es s)"
  by (simp add: emit_def rebuffer_def)

lemma upd_rebuffer [simp]: "upd a f (rebuffer x s) = rebuffer x (upd a f s)"
  by (simp add: upd_def rebuffer_def)

lemma data_rebuffer [simp]:
  "(rebuffer x s)\<lparr>priv_data := d\<rparr> = rebuffer x (s\<lparr>priv_data := d\<rparr>)"
  by (simp add: rebuffer_def)

lemma propagateChange_rebuffer:
  "propagateChange name (rebuffer x s) = rebuffer_result x (propagateChange name s)"
  by (simp add: propagateChange_def get_data_def Let_def split: option.splits)

lemma handle_rebuffer: "handle h name (rebuffer x s) = rebuffer_result x (handle h name s)"
  by (cases h) (simp_all add: propagateChange_rebuffer)

lemma dispatch_rebuffer:
  "dispatch ls name (rebuffer x s) = rebuffer_result x (dispatch ls name s)"
proof (induction ls arbitrary: s)
  case Nil
  show ?case by simp
next
  case (Cons l ls)
  obtain n h where l: "l = (n, h)" by (cases l)
  show ?case
  proof (cases "handle h name s")
    case (Inl e)
    then show ?thesis using l Cons.IH by (cases e) (simp add: handle_rebuffer)
  next
    case (Inr s')
    then show ?thesis using l Cons.IH by (simp add: handle_rebuffer)
  qed
qed

lemma settle_rebuffer: "settle (rebuffer_result x r) = rebuffer x (settle r)"
proof (cases r)
  case (Inl e)
  then show ?thesis by (cases e) simp
next
  case (Inr s)
  then show ?thesis by simp
qed

lemma fire_rebuffer: "fire a name (rebuffer x s) = rebuffer_result x (fire a name s)"
  by (simp add: fire_def dispatch_rebuffer)

lemma undo_unlock_rebuffer: "undo_unlock a (rebuffer x s) = rebuffer x (undo_unlock a s)"
  by (simp add: undo_unlock_def split: option.splits)

lemma setData_callback_rebuffer:
  "setData_callback a (rebuffer x s) = rebuffer_result x (setData_callback a s)"
proof -
  have tail: "emitReady u (undo_unlock a (rebuffer x s1))
                = rebuffer x (emitReady u (undo_unlock a s1))" for u s1
    by (simp add: emitReady_def undo_unlock_rebuffer)
  show ?thesis
  proof (cases "get_data s \<noteq> Val (content (editors s a))")
    case False
    then show ?thesis
      by (simp add: setData_callback_def get_data_def tail)
  next
    case True
    let ?name = "if undoManager (editors s a) \<noteq> None then ''change'' else ''dataReady''"
    show ?thesis
    proof (cases "fire a ?name s")
      case (Inl e)
      then show ?thesis using True
        by (cases e) (simp add: setData_callback_def get_data_def fire_rebuffer split: if_splits)
    next
      case (Inr s1)
      then show ?thesis using True
        by (simp add: setData_callback_def get_data_def fire_rebuffer tail split: if_splits)
    qed
  qed
qed

lemma step_rebuffer:
  assumes "editorInstance s \<noteq> None" and "\<not> is_instanceReady ev"
  shows "step ev (rebuffer x s) = rebuffer x (step ev s)"
proof (cases ev)
  case (EvInstanceReady b)
  with assms(2) show ?thesis by simp
next
  case (EvPushDone a c)
  then show ?thesis
    by (simp add: settle_rebuffer setData_callback_rebuffer pushCompleted_def)
next
  case (EvNative a name c)
  then show ?thesis
    by (simp add: settle_rebuffer dispatch_rebuffer Let_def)
qed (use assms(1) in \<open>auto simp: method_defs lib_defs rebuffer_def Let_def\<close>)

subsection \<open>Fields across a step\<close>

lemma settle_fields:
  "editorInstance (settle r) = editorInstance (state_of r)"
  "priv_readOnly (settle r) = priv_readOnly (state_of r)"
  "created (settle r) = created (state_of r)"
proof -
  have "editorInstance (settle r) = editorInstance (state_of r)
      \<and> priv_readOnly (settle r) = priv_readOnly (state_of r)
      \<and> created (settle r) = created (state_of r)"
  proof (cases r)
    case (Inl p)
    then show ?thesis by (cases p) (simp add: emit_def)
  next
    case (Inr s)
    then show ?thesis by simp
  qed
  then show "editorInstance (settle r) = editorInstance (state_of r)"
    and "priv_readOnly (settle r) = priv_readOnly (state_of r)"
    and "created (settle r) = created (state_of r)"
    by simp_all
qed

lemma instanceReady_fields:
  "\<exists>s'. instanceReady a s = Inr s' \<and> editorInstance s' = Some a
        \<and> priv_readOnly s' = priv_readOnly s \<and> created s' = created s"
  by (simp add: instanceReady_def set_readOnly_def get_data_def emitReady_def subscribe_def
        relays_def lib_defs Let_def split: option.splits)

lemma setData_callback_fields:
  "editorInstance (state_of (setData_callback a s)) = editorInstance s \<and>
   priv_readOnly (state_of (setData_callback a s)) = priv_readOnly s \<and>
   created (state_of (setData_callback a s)) = created s"
proof (cases "get_data s \<noteq> Val (content (editors s a))")
  case False
  then show ?thesis
    by (simp add: setData_callback_def emitReady_def lib_defs split: option.splits)
next
  case True
  let ?name = "if undoManager (editors s a) \<noteq> None then ''change'' else ''dataReady''"
  let ?s0 = "emit [EdFire a ?name] s"
  have n: "notified ?s0 (state_of (fire a ?name s))"
    using dispatch_notified[of ?s0 "listeners (editors s a)" ?name] by (simp add: fire_def emit_def)
  show ?thesis
  proof (cases "fire a ?name s")
    case (Inl e)
    with n True show ?thesis
      by (cases e) (auto simp: setData_callback_def notified_def emit_def split: if_splits)
  next
    case (Inr s1)
    with n True show ?thesis
      by (auto simp: setData_callback_def notified_def emitReady_def lib_defs
               split: if_splits option.splits)
  qed
qed

lemma step_instance:
  "editorInstance (step ev s) =
     (case ev of
        EvOnDestroy \<Rightarrow> None
      | EvInstanceReady a \<Rightarrow>
          (if a < created s \<and> status (editors s a) = Unloaded then Some a else editorInstance s)
      | _ \<Rightarrow> editorInstance s)"
proof (cases ev)
  case (EvInstanceReady a)
  with instanceReady_fields[of a "upd a (\<lambda>e. e\<lparr>status := IsReady\<rparr>) s"] show ?thesis
    by auto
next
  case (EvPushDone a c)
  then show ?thesis
    by (simp add: settle_fields setData_callback_fields pushCompleted_def upd_def)
next
  case (EvNative a name c)
  then show ?thesis
    using dispatch_notified[of "upd a (\<lambda>e. e\<lparr>content := c\<rparr>) s" "listeners (editors s a)" name]
    by (simp add: settle_fields notified_def upd_def Let_def)
qed (auto simp: method_defs lib_defs Let_def split: option.splits)

lemma step_buffer_value:
  "priv_readOnly (step ev s) =
     (case ev of
        EvSetReadOnly b \<Rightarrow> (if editorInstance s = None then b else priv_readOnly s)
      | _ \<Rightarrow> priv_readOnly s)"
proof (cases ev)
  case (EvInstanceReady a)
  with instanceReady_fields[of a "upd a (\<lambda>e. e\<lparr>status := IsReady\<rparr>) s"] show ?thesis
    by (auto simp: upd_def)
next
  case (EvPushDone a c)
  then show ?thesis
    by (simp add: settle_fields setData_callback_fields pushCompleted_def upd_def)
next
  case (EvNative a name c)
  then show ?thesis
    using dispatch_notified[of "upd a (\<lambda>e. e\<lparr>content := c\<rparr>) s" "listeners (editors s a)" name]
    by (simp add: settle_fields notified_def upd_def Let_def)
qed (auto simp: method_defs lib_defs Let_def split: option.splits)

subsection \<open>Runs\<close>

lemma run_Nil [simp]: "run [] s = s"
  by (simp add: run_def)

lemma run_Cons [simp]: "run (ev # evs) s = run evs (step ev s)"
  by (simp add: run_def)

lemma run_append [simp]: "run (xs @ ys) s = run ys (run xs s)"
  by (simp add: run_def)

text \<open>As long as no editor object exists, no step makes one unless a resolution arrives
  at a component that is not destroyed.\<close>

lemma step_without_editor:
  assumes "created s = 0" and "editorInstance s = None"
    and "is_resolved ev \<longrightarrow> priv_destroyed s \<or> resolutions s = 0"
  shows "created (step ev s) = 0 \<and> editorInstance (step ev s) = None
       \<and> (priv_destroyed s \<longrightarrow> priv_destroyed (step ev s))
       \<and> (ev \<noteq> EvAfterViewInit \<longrightarrow> resolutions (step ev s) \<le> resolutions s)
       \<and> (\<exists>t. trace (step ev s) = trace s @ t \<and> list_all harmless t)"
  using assms
  by (cases ev) (auto simp: method_defs lib_defs harmless_def Let_def)


lemma run_destroyed_without_editor:
  assumes "created s = 0" and "editorInstance s = None" and "priv_destroyed s"
  shows "created (run evs s) = 0 \<and> editorInstance (run evs s) = None \<and> priv_destroyed (run evs s)
       \<and> (\<exists>t. trace (run evs s) = trace s @ t \<and> list_all harmless t)"
  using assms
proof (induction evs arbitrary: s)
  case Nil
  then show ?case by simp
next
  case (Cons ev evs)
  from step_without_editor[of s ev] Cons.prems
  obtain t where st: "created (step ev s) = 0" "editorInstance (step ev s) = None"
    "priv_destroyed (step ev s)" "trace (step ev s) = trace s @ t" "list_all harmless t"
    by auto
  from Cons.IH[OF st(1,2,3)] obtain u where
    "created (run evs (step ev s)) = 0" "editorInstance (run evs (step ev s)) = None"
    "priv_destroyed (run evs (step ev s))"
    "trace (run evs (step ev s)) = trace (step ev s) @ u" "list_all harmless u"
    by auto
  with st show ?case by simp
qed

lemma run_unresolved_without_editor:
  assumes "created s = 0" and "editorInstance s = None" and "filter is_resolved evs = []"
  shows "created (run evs s) = 0 \<and> editorInstance (run evs s) = None
       \<and> (\<exists>t. trace (run evs s) = trace s @ t \<and> list_all harmless t)"
  using assms
proof (induction evs arbitrary: s)
  case Nil
  then show ?case by simp
next
  case (Cons ev evs)
  from Cons.prems(3) have ev: "\<not> is_resolved ev" and evs: "filter is_resolved evs = []"
    by (auto split: if_splits)
  from step_without_editor[of s ev] Cons.prems(1,2) ev
  obtain t where st: "created (step ev s) = 0" "editorInstance (step ev s) = None"
    "trace (step ev s) = trace s @ t" "list_all harmless t"
    by auto
  from Cons.IH[OF st(1,2) evs] obtain u where
    "created (run evs (step ev s)) = 0" "editorInstance (run evs (step ev s)) = None"
    "trace (run evs (step ev s)) = trace (step ev s) @ u" "list_all harmless u"
    by auto
  with st show ?case by simp
qed

lemma run_settled_without_editor:
  assumes "created s = 0" and "editorInstance s = None" and "resolutions s = 0"
    and "EvAfterViewInit \<notin> set evs"
  shows "created (run evs s) = 0 \<and> editorInstance (run evs s) = None \<and> resolutions (run evs s) = 0
       \<and> (\<exists>t. trace (run evs s) = trace s @ t \<and> list_all harmless t)"
  using assms
proof (induction evs arbitrary: s)
  case Nil
  then show ?case by simp
next
  case (Cons ev evs)
  from Cons.prems(4) have ev: "ev \<noteq> EvAfterViewInit" and evs: "EvAfterViewInit \<notin> set evs"
    by auto
  from step_without_editor[of s ev] Cons.prems(1,2,3) ev
  obtain t where st: "created (step ev s) = 0" "editorInstance (step ev s) = None"
    "resolutions (step ev s) = 0" "trace (step ev s) = trace s @ t" "list_all harmless t"
    by auto
  from Cons.IH[OF st(1,2,3) evs] obtain u where
    "created (run evs (step ev s)) = 0" "editorInstance (run evs (step ev s)) = None"
    "resolutions (run evs (step ev s)) = 0"
    "trace (run evs (step ev s)) = trace (step ev s) @ u" "list_all harmless u"
    by auto
  with st show ?case by simp
qed

lemma instance_origin:
  "editorInstance (run evs s) = Some a \<Longrightarrow>
     (editorInstance s = Some a \<and> EvOnDestroy \<notin> set evs) \<or>
     (\<exists>pre post. evs = pre @ EvInstanceReady a # post \<and> EvOnDestroy \<notin> set post)"
proof (induction evs rule: rev_induct)
  case Nil
  then show ?case by simp
next
  case (snoc ev evs)
  from snoc.prems have st: "editorInstance (step ev (run evs s)) = Some a" by simp
  show ?case
  proof (cases "ev = EvInstanceReady a")
    case True
    then show ?thesis
      by (intro disjI2 exI[of _ evs] exI[of _ "[]"]) simp
  next
    case False
    with st have keep: "editorInstance (run evs s) = Some a" and nd: "ev \<noteq> EvOnDestroy"
      by (auto simp: step_instance split: event.splits if_splits)
    from snoc.IH[OF keep] show ?thesis
    proof
      assume "editorInstance s = Some a \<and> EvOnDestroy \<notin> set evs"
      with nd show ?thesis by simp
    next
      assume "\<exists>pre post. evs = pre @ EvInstanceReady a # post \<and> EvOnDestroy \<notin> set post"
      then obtain pre post where "evs = pre @ EvInstanceReady a # post" "EvOnDestroy \<notin> set post"
        by blast
      with nd have "evs @ [ev] = pre @ EvInstanceReady a # (post @ [ev])"
        "EvOnDestroy \<notin> set (post @ [ev])" by simp_all
      then show ?thesis by blast
    qed
  qed
qed

lemma run_while_instance:
  assumes "editorInstance s \<noteq> None" and "EvOnDestroy \<notin> set evs"
  shows "editorInstance (run evs s) \<noteq> None \<and> priv_readOnly (run evs s) = priv_readOnly s"
  using assms
proof (induction evs arbitrary: s)
  case Nil
  then show ?case by simp
next
  case (Cons ev evs)
  from Cons.prems have ev: "ev \<noteq> EvOnDestroy" and evs: "EvOnDestroy \<notin> set evs" by auto
  have i: "editorInstance (step ev s) \<noteq> None"
    using Cons.prems(1) ev by (auto simp: step_instance split: event.splits)
  have b: "priv_readOnly (step ev s) = priv_readOnly s"
    using Cons.prems(1) by (auto simp: step_buffer_value split: event.splits)
  from Cons.IH[OF i evs] b show ?case by simp
qed

lemma run_never_buffered:
  assumes "filter is_setReadOnlyEvent evs = []"
  shows "priv_readOnly (run evs s) = priv_readOnly s"
  using assms
proof (induction evs arbitrary: s)
  case Nil
  then show ?case by simp
next
  case (Cons ev evs)
  from Cons.prems have ev: "\<not> is_setReadOnlyEvent ev" and evs: "filter is_setReadOnlyEvent evs = []"
    by (auto split: if_splits)
  have "priv_readOnly (step ev s) = priv_readOnly s"
    using ev by (auto simp: step_buffer_value split: event.splits)
  with Cons.IH[OF evs] show ?case by simp
qed


subsection \<open>The example components\<close>

lemma fresh_fields:
  "editorInstance fresh = None" "priv_data fresh = Null" "priv_readOnly fresh = Null"
  "created fresh = 1" "undoManager (editors fresh 0) = Some 0"
  "readOnly (editors fresh 0) = False" "userInstanceReadyCallback (editors fresh 0) = None"
  "status (editors fresh 0) = Unloaded"
  by (simp_all add: fresh_def run_def constructed_def method_defs lib_defs Let_def)

lemma live_fields:
  "editorInstance live = Some 0" "priv_data live = Null" "priv_readOnly live = Null"
  "content (editors live 0) = ''<p>a</p>''" "undoManager (editors live 0) = Some 0"
  "onChange live = None" "readOnly (editors live 0) = False"
  by (simp_all add: live_def run_def constructed_def method_defs lib_defs Let_def)

lemma quiet_fields:
  "editorInstance quiet = Some 0" "priv_data quiet = Val ''a''"
  "content (editors quiet 0) = ''a''" "undoManager (editors quiet 0) = None"
  by (simp_all add: quiet_def run_def constructed_def method_defs lib_defs Let_def)

lemma loading_fields:
  "editorInstance loading = None" "priv_data loading = Val ''<b>x</b>''"
  "priv_readOnly loading = Null" "created loading = 1"
  "undoManager (editors loading 0) = Some 0" "readOnly (editors loading 0) = False"
  "userInstanceReadyCallback (editors loading 0) = None" "callbacks (editors loading 0) = 0"
  "status (editors loading 0) = Unloaded"
  by (simp_all add: loading_def run_def constructed_def method_defs lib_defs Let_def)

lemma pushing_fields:
  "editorInstance pushing = Some 0" "priv_data pushing = Val ''<b>x</b>''"
  "content (editors pushing 0) = []" "undoManager (editors pushing 0) = Some 1"
  "userInstanceReadyCallback (editors pushing 0) = None" "callbacks (editors pushing 0) = 1"
  "count_list (trace pushing) (Emit Ready) = 0"
  by (simp_all add: pushing_def loading_def run_def constructed_def method_defs lib_defs Let_def)

lemma unset_fields:
  "editorInstance unset = None" "priv_data unset = Undefined" "priv_readOnly unset = Undefined"
  "created unset = 1" "undoManager (editors unset 0) = None"
  "readOnly (editors unset 0) = False" "userInstanceReadyCallback (editors unset 0) = None"
  "callbacks (editors unset 0) = 0"
  by (simp_all add: unset_def run_def constructed_def method_defs lib_defs Let_def)

lemma torn_fields:
  "editorInstance torn = None" "priv_destroyed torn" "callbacks (editors torn 0) = 0"
  "count_list (trace torn) (Emit Ready) = 0"
  "count_list (trace torn) (EdSetData 0 (Val ''<b>x</b>'') True) = 1"
  by (simp_all add: torn_def pushing_def loading_def run_def constructed_def method_defs
        lib_defs Let_def)

subsection \<open>The completion callback and teardown\<close>

lemma setData_callback_complete:
  assumes "editorInstance s \<noteq> None"
  shows "\<exists>s' mid. setData_callback a s = Inr s' \<and> list_all relayed_effect mid \<and>
     added s s' =
       (if priv_data s \<noteq> Val (content (editors s a))
        then EdFire a (if undoManager (editors s a) \<noteq> None then ''change'' else ''dataReady'')
             # mid
        else [])
       @ (if undoManager (editors s a) \<noteq> None then [EdUnlock a] else [])
       @ readyEffects (userInstanceReadyCallback (editors s a)) \<and>
     filter is_fire (added s s') =
       (if priv_data s \<noteq> Val (content (editors s a))
        then [EdFire a (if undoManager (editors s a) \<noteq> None then ''change'' else ''dataReady'')]
        else []) \<and>
     count_list (added s s') (Emit Ready) = 1 \<and>
     filter is_push (added s s') = []"
proof -
  from assms obtain i where "editorInstance s = Some i" by auto
  from setData_callback_result[OF this, of a] obtain s' mid where
    r: "setData_callback a s = Inr s'" "list_all relayed_effect mid"
      "added s s' =
         (if priv_data s \<noteq> Val (content (editors s a))
          then EdFire a (if undoManager (editors s a) \<noteq> None then ''change'' else ''dataReady'')
               # mid
          else [])
         @ (if undoManager (editors s a) \<noteq> None then [EdUnlock a] else [])
         @ readyEffects (userInstanceReadyCallback (editors s a))"
    by blast
  have "filter is_fire (added s s') =
       (if priv_data s \<noteq> Val (content (editors s a))
        then [EdFire a (if undoManager (editors s a) \<noteq> None then ''change'' else ''dataReady'')]
        else [])"
    unfolding r(3) using r(2) by (simp add: relayed_no_fire fire_readyEffects)
  moreover have "count_list (added s s') (Emit Ready) = 1"
    unfolding r(3) using r(2) by (simp add: relayed_no_ready count_readyEffects)
  moreover have "filter is_push (added s s') = []"
    unfolding r(3) using r(2) by (simp add: relayed_no_push push_readyEffects)
  ultimately show ?thesis using r by blast
qed

lemma pushCompleted_instance: "editorInstance (pushCompleted a c s) = editorInstance s"
  by (simp add: pushCompleted_def upd_def)

lemma ngOnDestroy_states_flag: "list_all priv_destroyed (ngOnDestroy_states s)"
  by (simp add: ngOnDestroy_states_def Let_def lib_defs split: option.splits)

lemma ngOnDestroy_states_first: "hd (ngOnDestroy_states s) = s\<lparr>priv_destroyed := True\<rparr>"
  by (simp add: ngOnDestroy_states_def Let_def)

lemma ngOnDestroy_states_calls:
  "map (added s) (ngOnDestroy_states s) =
     (case editorInstance s of
        Some i \<Rightarrow> [[], [OutsideEnter], [OutsideEnter, EdDestroy i], [OutsideEnter, EdDestroy i],
                   [OutsideEnter, EdDestroy i, OutsideLeave]]
      | None \<Rightarrow> [[], [OutsideEnter], [OutsideEnter], [OutsideEnter],
                 [OutsideEnter, OutsideLeave]])"
  by (simp add: ngOnDestroy_states_def Let_def lib_defs added_def split: option.splits)

lemma ngOnDestroy_states_instance:
  "map editorInstance (ngOnDestroy_states s) =
     [editorInstance s, editorInstance s, editorInstance s, None, None]"
  by (simp add: ngOnDestroy_states_def Let_def lib_defs split: option.splits)

lemma no_late_ready_before:
  "no_late_ready (pre @ EvInstanceReady a # post) \<Longrightarrow> EvOnDestroy \<notin> set pre"
  by (induction pre) (auto split: if_splits)

lemma instance_means_ready:
  assumes "no_late_ready evs" and "editorInstance (run evs constructed) = Some a"
  shows "EvInstanceReady a \<in> set evs \<and> EvOnDestroy \<notin> set evs"
proof -
  have "editorInstance constructed = None" by (simp add: constructed_def)
  with instance_origin[OF assms(2)] obtain pre post where
    d: "evs = pre @ EvInstanceReady a # post" "EvOnDestroy \<notin> set post"
    by auto
  from assms(1) d(1) have "EvOnDestroy \<notin> set pre"
    using no_late_ready_before by blast
  with d show ?thesis by auto
qed

text \<open>
  The \<open>instanceReady\<close> handler does not test \<open>_destroyed\<close>: when the library reports an
  editor ready after the teardown, the handler stores it and subscribes to it on a
  destroyed component, and no \<open>destroy\<close> call is ever made for it.
\<close>

lemma late_fields:
  "priv_destroyed late" "editorInstance late = Some 0" "status (editors late 0) = IsReady"
  "count_list (trace late) (EdDestroy 0) = 0" "count_list (trace late) (Emit Ready) = 1"
  by (simp_all add: late_def run_def constructed_def method_defs lib_defs Let_def)

section \<open>The claims\<close>

text \<open>
  Claim C1, as amended. The creation handshake is the \<open>instanceReady\<close> handler together
  with the completion callback it hands to \<open>setData\<close>. If \<open>_data\<close> is null when the handler
  runs, the handler applies the read-only state, subscribes, and then emits the ready
  notification inside the zone, after the user's \<open>instanceReady\<close> callback if there is one:
  exactly one ready notification and no push. If \<open>_data\<close> is not null (\<open>undefined\<close>
  included), the handler locks the undo manager when there is one, pushes \<open>_data\<close> with a
  completion callback and returns without a ready notification, holding the instance.
  Whatever events follow, as long as none of them is a teardown, the completion callback
  that the library then calls returns normally: it fires the native \<open>change\<close> event (with
  an undo manager) or \<open>dataReady\<close> event (without) if and only if \<open>_data\<close> differs from the
  editor's content at that moment; what the listeners add in response contains no ready
  notification, no push and no further firing; then it unlocks the undo manager when
  there is one and emits the ready notification inside the zone, after the user's
  callback: exactly one ready notification. The same holds of the callback in any state in
  which the component holds an instance.
\<close>

theorem instanceReady_handshake:
  "(priv_data s = Null \<longrightarrow>
      (\<exists>s'. instanceReady a s = Inr s' \<and>
         added s s'
           = [EdSetReadOnly a (if priv_readOnly s \<noteq> Null
                               then priv_readOnly s
                               else Val (readOnly (editors s a)))]
             @ map (\<lambda>(n, h). EdOn a n h) (subscriptions (undoManager (editors s a) \<noteq> None))
             @ readyEffects (userInstanceReadyCallback (editors s a)) \<and>
         count_list (added s s') (Emit Ready) = 1 \<and>
         filter is_push (added s s') = [])) \<and>
   (priv_data s \<noteq> Null \<longrightarrow>
      (\<exists>s'. instanceReady a s = Inr s' \<and>
         added s s'
           = [EdSetReadOnly a (if priv_readOnly s \<noteq> Null
                               then priv_readOnly s
                               else Val (readOnly (editors s a)))]
             @ map (\<lambda>(n, h). EdOn a n h) (subscriptions (undoManager (editors s a) \<noteq> None))
             @ (if undoManager (editors s a) \<noteq> None then [EdLock a] else [])
             @ [EdSetData a (priv_data s) True] \<and>
         count_list (added s s') (Emit Ready) = 0 \<and>
         callbacks (editors s' a) = callbacks (editors s a) + 1 \<and>
         editorInstance s' = Some a \<and> priv_data s' = priv_data s \<and>
         (\<forall>mid c. EvOnDestroy \<notin> set mid \<longrightarrow>
            (let p = pushCompleted a c (run mid s') in
             (\<exists>s3 m. setData_callback a p = Inr s3 \<and> list_all relayed_effect m \<and>
         added p s3
           = (if priv_data p \<noteq> Val (content (editors p a))
              then EdFire a (if undoManager (editors p a) \<noteq> None
                             then ''change'' else ''dataReady'') # m
              else [])
             @ (if undoManager (editors p a) \<noteq> None then [EdUnlock a] else [])
             @ readyEffects (userInstanceReadyCallback (editors p a)) \<and>
         filter is_fire (added p s3)
           = (if priv_data p \<noteq> Val (content (editors p a))
              then [EdFire a (if undoManager (editors p a) \<noteq> None
                              then ''change'' else ''dataReady'')]
              else []) \<and>
         count_list (added p s3) (Emit Ready) = 1 \<and>
         filter is_push (added p s3) = []))))) \<and>
   (editorInstance s2 \<noteq> None \<longrightarrow>
      (\<exists>s3 m. setData_callback a s2 = Inr s3 \<and> list_all relayed_effect m \<and>
         added s2 s3
           = (if priv_data s2 \<noteq> Val (content (editors s2 a))
              then EdFire a (if undoManager (editors s2 a) \<noteq> None
                             then ''change'' else ''dataReady'') # m
              else [])
             @ (if undoManager (editors s2 a) \<noteq> None then [EdUnlock a] else [])
             @ readyEffects (userInstanceReadyCallback (editors s2 a)) \<and>
         filter is_fire (added s2 s3)
           = (if priv_data s2 \<noteq> Val (content (editors s2 a))
              then [EdFire a (if undoManager (editors s2 a) \<noteq> None
                              then ''change'' else ''dataReady'')]
              else []) \<and>
         count_list (added s2 s3) (Emit Ready) = 1 \<and>
         filter is_push (added s2 s3) = []))"
proof (intro conjI impI)
  assume "priv_data s = Null"
  from instanceReady_null[OF this, of a] obtain s' where
    s': "instanceReady a s = Inr s'"
      "added s s'
        = [EdSetReadOnly a (if priv_readOnly s \<noteq> Null
                               then priv_readOnly s
                               else Val (readOnly (editors s a)))]
          @ map (\<lambda>(n, h). EdOn a n h) (subscriptions (undoManager (editors s a) \<noteq> None))
          @ readyEffects (userInstanceReadyCallback (editors s a))"
    by blast
  have "count_list (added s s') (Emit Ready) = 1"
    unfolding s'(2)
    by (simp add: count_readyEffects subscriptions_def relays_def)
  moreover have "filter is_push (added s s') = []"
    unfolding s'(2)
    by (simp add: push_readyEffects subscriptions_def relays_def)
  ultimately show "\<exists>s'. instanceReady a s = Inr s' \<and>
         added s s'
           = [EdSetReadOnly a (if priv_readOnly s \<noteq> Null
                               then priv_readOnly s
                               else Val (readOnly (editors s a)))]
             @ map (\<lambda>(n, h). EdOn a n h) (subscriptions (undoManager (editors s a) \<noteq> None))
             @ readyEffects (userInstanceReadyCallback (editors s a)) \<and>
         count_list (added s s') (Emit Ready) = 1 \<and>
         filter is_push (added s s') = []"
    using s' by blast
next
  assume "priv_data s \<noteq> Null"
  from instanceReady_push[OF this, of a] obtain s' where
    s': "instanceReady a s = Inr s'"
      "added s s'
        = [EdSetReadOnly a (if priv_readOnly s \<noteq> Null
                               then priv_readOnly s
                               else Val (readOnly (editors s a)))]
          @ map (\<lambda>(n, h). EdOn a n h) (subscriptions (undoManager (editors s a) \<noteq> None))
          @ (if undoManager (editors s a) \<noteq> None then [EdLock a] else [])
          @ [EdSetData a (priv_data s) True]"
      "callbacks (editors s' a) = callbacks (editors s a) + 1"
      "editorInstance s' = Some a" "priv_data s' = priv_data s"
    by blast
  have c: "count_list (added s s') (Emit Ready) = 0"
    unfolding s'(2)
    by (simp add: subscriptions_def relays_def)
  have l: "(\<forall>mid c. EvOnDestroy \<notin> set mid \<longrightarrow>
                (let p = pushCompleted a c (run mid s') in
                 (\<exists>s3 m. setData_callback a p = Inr s3 \<and> list_all relayed_effect m \<and>
             added p s3
               = (if priv_data p \<noteq> Val (content (editors p a))
                  then EdFire a (if undoManager (editors p a) \<noteq> None
                                 then ''change'' else ''dataReady'') # m
                  else [])
                 @ (if undoManager (editors p a) \<noteq> None then [EdUnlock a] else [])
                 @ readyEffects (userInstanceReadyCallback (editors p a)) \<and>
             filter is_fire (added p s3)
               = (if priv_data p \<noteq> Val (content (editors p a))
                  then [EdFire a (if undoManager (editors p a) \<noteq> None
                                  then ''change'' else ''dataReady'')]
                  else []) \<and>
             count_list (added p s3) (Emit Ready) = 1 \<and>
             filter is_push (added p s3) = [])))"
  proof (intro allI impI)
    fix mid c
    assume "EvOnDestroy \<notin> set mid"
    with run_while_instance[of s' mid] s'(4)
    have "editorInstance (run mid s') \<noteq> None" by simp
    then have "editorInstance (pushCompleted a c (run mid s')) \<noteq> None"
      by (simp add: pushCompleted_instance)
    from setData_callback_complete[OF this, of a]
    show "let p = pushCompleted a c (run mid s') in
             (\<exists>s3 m. setData_callback a p = Inr s3 \<and> list_all relayed_effect m \<and>
         added p s3
           = (if priv_data p \<noteq> Val (content (editors p a))
              then EdFire a (if undoManager (editors p a) \<noteq> None
                             then ''change'' else ''dataReady'') # m
              else [])
             @ (if undoManager (editors p a) \<noteq> None then [EdUnlock a] else [])
             @ readyEffects (userInstanceReadyCallback (editors p a)) \<and>
         filter is_fire (added p s3)
           = (if priv_data p \<noteq> Val (content (editors p a))
              then [EdFire a (if undoManager (editors p a) \<noteq> None
                              then ''change'' else ''dataReady'')]
              else []) \<and>
         count_list (added p s3) (Emit Ready) = 1 \<and>
         filter is_push (added p s3) = [])"
      unfolding Let_def by blast
  qed
  from s' c l
  show "\<exists>s'. instanceReady a s = Inr s' \<and>
         added s s'
           = [EdSetReadOnly a (if priv_readOnly s \<noteq> Null
                               then priv_readOnly s
                               else Val (readOnly (editors s a)))]
             @ map (\<lambda>(n, h). EdOn a n h) (subscriptions (undoManager (editors s a) \<noteq> None))
             @ (if undoManager (editors s a) \<noteq> None then [EdLock a] else [])
             @ [EdSetData a (priv_data s) True] \<and>
         count_list (added s s') (Emit Ready) = 0 \<and>
         callbacks (editors s' a) = callbacks (editors s a) + 1 \<and>
         editorInstance s' = Some a \<and> priv_data s' = priv_data s \<and>
         (\<forall>mid c. EvOnDestroy \<notin> set mid \<longrightarrow>
            (let p = pushCompleted a c (run mid s') in
             (\<exists>s3 m. setData_callback a p = Inr s3 \<and> list_all relayed_effect m \<and>
         added p s3
           = (if priv_data p \<noteq> Val (content (editors p a))
              then EdFire a (if undoManager (editors p a) \<noteq> None
                             then ''change'' else ''dataReady'') # m
              else [])
             @ (if undoManager (editors p a) \<noteq> None then [EdUnlock a] else [])
             @ readyEffects (userInstanceReadyCallback (editors p a)) \<and>
         filter is_fire (added p s3)
           = (if priv_data p \<noteq> Val (content (editors p a))
              then [EdFire a (if undoManager (editors p a) \<noteq> None
                              then ''change'' else ''dataReady'')]
              else []) \<and>
         count_list (added p s3) (Emit Ready) = 1 \<and>
         filter is_push (added p s3) = [])))"
    by blast
next
  assume "editorInstance s2 \<noteq> None"
  from setData_callback_complete[OF this, of a]
  show "\<exists>s3 m. setData_callback a s2 = Inr s3 \<and> list_all relayed_effect m \<and>
         added s2 s3
           = (if priv_data s2 \<noteq> Val (content (editors s2 a))
              then EdFire a (if undoManager (editors s2 a) \<noteq> None
                             then ''change'' else ''dataReady'') # m
              else [])
             @ (if undoManager (editors s2 a) \<noteq> None then [EdUnlock a] else [])
             @ readyEffects (userInstanceReadyCallback (editors s2 a)) \<and>
         filter is_fire (added s2 s3)
           = (if priv_data s2 \<noteq> Val (content (editors s2 a))
              then [EdFire a (if undoManager (editors s2 a) \<noteq> None
                              then ''change'' else ''dataReady'')]
              else []) \<and>
         count_list (added s2 s3) (Emit Ready) = 1 \<and>
         filter is_push (added s2 s3) = []"
    by blast
qed

text \<open>
  At \<open>fresh\<close> nothing is buffered: one ready notification and no push. At \<open>loading\<close> the
  value \<open><b>x</b>\<close> is buffered: the handler locks, pushes and stops; after a \<open>dataReady\<close>
  event of the library the completion callback emits the one ready notification. At
  \<open>unset\<close> the buffer is \<open>undefined\<close>, which is pushed as well. At \<open>pushing\<close> the editor's
  content still differs from \<open>_data\<close>, so the callback fires \<open>change\<close> once.
\<close>

theorem instanceReady_handshake_witness:
  "priv_data fresh = Null \<and>
   (\<exists>s'. instanceReady 0 fresh = Inr s' \<and> count_list (added fresh s') (Emit Ready) = 1
      \<and> filter is_push (added fresh s') = []) \<and>
   priv_data loading \<noteq> Null \<and>
   EvOnDestroy \<notin> set [EvNative 0 ''dataReady'' ''<strong>x</strong>''] \<and>
   (\<exists>s' s3. instanceReady 0 loading = Inr s' \<and> count_list (added loading s') (Emit Ready) = 0
      \<and> filter is_push (added loading s') = [EdSetData 0 (Val ''<b>x</b>'') True]
      \<and> setData_callback 0
            (pushCompleted 0 ''<strong>x</strong>''
               (run [EvNative 0 ''dataReady'' ''<strong>x</strong>''] s')) = Inr s3
      \<and> count_list
            (added (pushCompleted 0 ''<strong>x</strong>''
                      (run [EvNative 0 ''dataReady'' ''<strong>x</strong>''] s')) s3)
            (Emit Ready) = 1) \<and>
   priv_data unset \<noteq> Null \<and>
   (\<exists>s'. instanceReady 0 unset = Inr s' \<and> count_list (added unset s') (Emit Ready) = 0
      \<and> filter is_push (added unset s') = [EdSetData 0 Undefined True]) \<and>
   editorInstance pushing \<noteq> None \<and>
   (\<exists>s3. setData_callback 0 pushing = Inr s3
      \<and> filter is_fire (added pushing s3) = [EdFire 0 ''change'']
      \<and> count_list (added pushing s3) (Emit Ready) = 1)"
proof -
  have m: "EvOnDestroy \<notin> set [EvNative 0 ''dataReady'' ''<strong>x</strong>'']" by simp
  have a: "\<exists>s'. instanceReady 0 fresh = Inr s' \<and> count_list (added fresh s') (Emit Ready) = 1
      \<and> filter is_push (added fresh s') = []"
    using instanceReady_handshake[where s = fresh and a = 0 and ?s2.0 = pushing,
        THEN conjunct1]
    by (auto simp: fresh_fields)
  have n1: "priv_data loading \<noteq> Null" by (simp add: loading_fields)
  from instanceReady_handshake[where s = loading and a = 0 and ?s2.0 = pushing,
      THEN conjunct2, THEN conjunct1, rule_format, OF n1]
  obtain s1 where
    h1: "instanceReady 0 loading = Inr s1"
      "added loading s1
         = [EdSetReadOnly 0 (if priv_readOnly loading \<noteq> Null
                             then priv_readOnly loading
                             else Val (readOnly (editors loading 0)))]
           @ map (\<lambda>(n, h). EdOn 0 n h) (subscriptions (undoManager (editors loading 0) \<noteq> None))
           @ (if undoManager (editors loading 0) \<noteq> None then [EdLock 0] else [])
           @ [EdSetData 0 (priv_data loading) True]"
      "count_list (added loading s1) (Emit Ready) = 0"
    and l1: "\<forall>mid c. EvOnDestroy \<notin> set mid \<longrightarrow>
            (let p = pushCompleted 0 c (run mid s1) in
             (\<exists>s3 m. setData_callback 0 p = Inr s3 \<and> list_all relayed_effect m \<and>
         added p s3
           = (if priv_data p \<noteq> Val (content (editors p 0))
              then EdFire 0 (if undoManager (editors p 0) \<noteq> None
                             then ''change'' else ''dataReady'') # m
              else [])
             @ (if undoManager (editors p 0) \<noteq> None then [EdUnlock 0] else [])
             @ readyEffects (userInstanceReadyCallback (editors p 0)) \<and>
         filter is_fire (added p s3)
           = (if priv_data p \<noteq> Val (content (editors p 0))
              then [EdFire 0 (if undoManager (editors p 0) \<noteq> None
                              then ''change'' else ''dataReady'')]
              else []) \<and>
         count_list (added p s3) (Emit Ready) = 1 \<and>
         filter is_push (added p s3) = []))"
    by blast
  from h1(2) have p1: "filter is_push (added loading s1) = [EdSetData 0 (Val ''<b>x</b>'') True]"
    by (simp add: loading_fields subscriptions_def relays_def)
  from l1[rule_format, OF m, of "''<strong>x</strong>''"] obtain s3 where
    b3: "setData_callback 0
            (pushCompleted 0 ''<strong>x</strong>''
               (run [EvNative 0 ''dataReady'' ''<strong>x</strong>''] s1)) = Inr s3"
      "count_list
            (added (pushCompleted 0 ''<strong>x</strong>''
                      (run [EvNative 0 ''dataReady'' ''<strong>x</strong>''] s1)) s3)
            (Emit Ready) = 1"
    unfolding Let_def by blast
  have n2: "priv_data unset \<noteq> Null" by (simp add: unset_fields)
  from instanceReady_handshake[where s = unset and a = 0 and ?s2.0 = pushing,
      THEN conjunct2, THEN conjunct1, rule_format, OF n2]
  obtain s2 where
    h2: "instanceReady 0 unset = Inr s2"
      "added unset s2
         = [EdSetReadOnly 0 (if priv_readOnly unset \<noteq> Null
                             then priv_readOnly unset
                             else Val (readOnly (editors unset 0)))]
           @ map (\<lambda>(n, h). EdOn 0 n h) (subscriptions (undoManager (editors unset 0) \<noteq> None))
           @ (if undoManager (editors unset 0) \<noteq> None then [EdLock 0] else [])
           @ [EdSetData 0 (priv_data unset) True]"
      "count_list (added unset s2) (Emit Ready) = 0"
    and l2: "\<forall>mid c. EvOnDestroy \<notin> set mid \<longrightarrow>
            (let p = pushCompleted 0 c (run mid s2) in
             (\<exists>s3 m. setData_callback 0 p = Inr s3 \<and> list_all relayed_effect m \<and>
         added p s3
           = (if priv_data p \<noteq> Val (content (editors p 0))
              then EdFire 0 (if undoManager (editors p 0) \<noteq> None
                             then ''change'' else ''dataReady'') # m
              else [])
             @ (if undoManager (editors p 0) \<noteq> None then [EdUnlock 0] else [])
             @ readyEffects (userInstanceReadyCallback (editors p 0)) \<and>
         filter is_fire (added p s3)
           = (if priv_data p \<noteq> Val (content (editors p 0))
              then [EdFire 0 (if undoManager (editors p 0) \<noteq> None
                              then ''change'' else ''dataReady'')]
              else []) \<and>
         count_list (added p s3) (Emit Ready) = 1 \<and>
         filter is_push (added p s3) = []))"
    by blast
  from h2(2) have p2: "filter is_push (added unset s2) = [EdSetData 0 Undefined True]"
    by (simp add: unset_fields subscriptions_def relays_def)
  have i: "editorInstance pushing \<noteq> None" by (simp add: pushing_fields)
  from instanceReady_handshake[where s = loading and a = 0 and ?s2.0 = pushing,
      THEN conjunct2, THEN conjunct2, rule_format, OF i]
  have c: "\<exists>s3. setData_callback 0 pushing = Inr s3
      \<and> filter is_fire (added pushing s3) = [EdFire 0 ''change'']
      \<and> count_list (added pushing s3) (Emit Ready) = 1"
    by (auto simp: pushing_fields)
  have f: "priv_data fresh = Null" by (simp add: fresh_fields)
  from f a n1 m h1(1,3) p1 b3 n2 h2(1,3) p2 i c show ?thesis
    by blast
qed

text \<open>
  Claim C1 as stated fails: at \<open>torn\<close> a creation handshake has taken place (the handler
  pushed the buffered value with its completion callback), the component was torn down
  before the push completed, and no ready notification was ever emitted.
\<close>

theorem torn_handshake_counterexample:
  "count_list (trace torn) (EdSetData 0 (Val ''<b>x</b>'') True) = 1 \<and>
   count_list (trace torn) (Emit Ready) \<noteq> 1"
  by (simp add: torn_fields)

text \<open>
  Claim C2, as amended. Whenever the shared change handler fires while the component holds
  an instance, it reads the instance's current value. If that value equals \<open>_data\<close>, the
  handler emits no data-changed notification and does not call the change callback: it
  adds the zone entry, the typed notification and the zone exit only. Otherwise \<open>_data\<close>
  becomes the new value, one data-changed notification carrying the new value is emitted,
  and the change callback is called if one is registered. A second firing that directly
  follows with the same data never emits a data-changed notification, so two consecutive
  firings carrying identical data produce at most one data-changed notification: exactly
  one when the data differs from \<open>_data\<close> before the first firing, none when it is equal.
\<close>

theorem propagateChange_guard:
  assumes "editorInstance s = Some i"
  shows "\<exists>s1 s2. propagateChange name s = Inr s1 \<and> propagateChange name2 s1 = Inr s2
     \<and> (Val (content (editors s i)) = priv_data s \<longrightarrow>
          priv_data s1 = priv_data s \<and> added s s1 = [ZoneRunEnter] @ kind name @ [ZoneRunLeave])
     \<and> (Val (content (editors s i)) \<noteq> priv_data s \<longrightarrow>
          priv_data s1 = Val (content (editors s i))
          \<and> added s s1 = [ZoneRunEnter] @ kind name
                 @ [Emit (DataChange (content (editors s i)))]
                 @ (case onChange s of
                      Some f \<Rightarrow> [CallOnChange f (content (editors s i))]
                    | None \<Rightarrow> [])
                 @ [ZoneRunLeave])
     \<and> added s1 s2 = [ZoneRunEnter] @ kind name2 @ [ZoneRunLeave]
     \<and> dataChanges (added s s1 @ added s1 s2)
         = (if Val (content (editors s i)) = priv_data s then 0 else 1)"
proof (cases "Val (content (editors s i)) = priv_data s")
  case True
  from propagateChange_same[OF assms True, of name] obtain s1 where
    s1: "propagateChange name s = Inr s1" "priv_data s1 = priv_data s"
      "editors s1 = editors s" "editorInstance s1 = editorInstance s"
      "trace s1 = trace s @ [ZoneRunEnter] @ kind name @ [ZoneRunLeave]"
    by blast
  have i1: "editorInstance s1 = Some i" and eq1: "Val (content (editors s1 i)) = priv_data s1"
    using s1 assms True by simp_all
  from propagateChange_same[OF i1 eq1, of name2] obtain s2 where
    s2: "propagateChange name2 s1 = Inr s2"
      "trace s2 = trace s1 @ [ZoneRunEnter] @ kind name2 @ [ZoneRunLeave]"
    by blast
  show ?thesis
    using s1 s2 True by (simp add: added_trace dataChanges_def kind_def)
next
  case False
  from propagateChange_differs[OF assms False, of name] obtain s1 where
    s1: "propagateChange name s = Inr s1" "priv_data s1 = Val (content (editors s i))"
      "editors s1 = editors s" "editorInstance s1 = editorInstance s"
      "trace s1 = trace s @ [ZoneRunEnter] @ kind name
                 @ [Emit (DataChange (content (editors s i)))]
                 @ (case onChange s of
                      Some f \<Rightarrow> [CallOnChange f (content (editors s i))]
                    | None \<Rightarrow> [])
                 @ [ZoneRunLeave]"
    by blast
  have i1: "editorInstance s1 = Some i" and eq1: "Val (content (editors s1 i)) = priv_data s1"
    using s1 assms by simp_all
  from propagateChange_same[OF i1 eq1, of name2] obtain s2 where
    s2: "propagateChange name2 s1 = Inr s2"
      "trace s2 = trace s1 @ [ZoneRunEnter] @ kind name2 @ [ZoneRunLeave]"
    by blast
  show ?thesis
    using s1 s2 False by (simp add: added_trace dataChanges_def kind_def split: option.splits)
qed

text \<open>
  At the component \<open>live\<close> (editor content \<open><p>a</p>\<close>, nothing buffered) two change events
  give one data-changed notification; at \<open>quiet\<close>, whose \<open>_data\<close> equals the content, a
  firing adds the zone entry and exit only.
\<close>

theorem propagateChange_guard_witness:
  "editorInstance live = Some 0 \<and>
   (\<exists>s1 s2. propagateChange ''change'' live = Inr s1 \<and> propagateChange ''change'' s1 = Inr s2
      \<and> priv_data s1 = Val ''<p>a</p>''
      \<and> added s1 s2 = [ZoneRunEnter, Emit Change, ZoneRunLeave]
      \<and> dataChanges (added live s1 @ added s1 s2) = 1) \<and>
   editorInstance quiet = Some 0 \<and>
   (\<exists>s1. propagateChange ''selectionCheck'' quiet = Inr s1
      \<and> priv_data s1 = Val ''a'' \<and> added quiet s1 = [ZoneRunEnter, ZoneRunLeave])"
proof -
  have a: "\<exists>s1 s2. propagateChange ''change'' live = Inr s1
      \<and> propagateChange ''change'' s1 = Inr s2
      \<and> priv_data s1 = Val ''<p>a</p>''
      \<and> added s1 s2 = [ZoneRunEnter, Emit Change, ZoneRunLeave]
      \<and> dataChanges (added live s1 @ added s1 s2) = 1"
    using propagateChange_guard[of live 0 "''change''" "''change''"]
    by (auto simp: live_fields kind_def)
  have b: "\<exists>s1. propagateChange ''selectionCheck'' quiet = Inr s1
      \<and> priv_data s1 = Val ''a'' \<and> added quiet s1 = [ZoneRunEnter, ZoneRunLeave]"
    using propagateChange_guard[of quiet 0 "''selectionCheck''" "''selectionCheck''"]
    by (auto simp: quiet_fields kind_def)
  from a b show ?thesis by (simp add: live_fields quiet_fields)
qed

text \<open>
  Claim C2 as stated fails: at the component \<open>quiet\<close>, whose \<open>_data\<close> already equals the
  editor's content, two consecutive firings carrying that data produce no data-changed
  notification at all, not exactly one.
\<close>

theorem two_firings_counterexample:
  "dataChanges (added quiet (state_of (firings [''selectionCheck'', ''selectionCheck''] quiet))) \<noteq> 1"
proof -
  have "\<exists>s1 s2. propagateChange ''selectionCheck'' quiet = Inr s1
          \<and> propagateChange ''selectionCheck'' s1 = Inr s2
          \<and> trace s2 = trace quiet @ [ZoneRunEnter, ZoneRunLeave, ZoneRunEnter, ZoneRunLeave]"
    by (simp add: propagateChange_def get_data_def emit_def Let_def quiet_fields)
  then obtain s1 s2 where
    "propagateChange ''selectionCheck'' quiet = Inr s1"
    "propagateChange ''selectionCheck'' s1 = Inr s2"
    "trace s2 = trace quiet @ [ZoneRunEnter, ZoneRunLeave, ZoneRunEnter, ZoneRunLeave]"
    by blast
  then show ?thesis
    by (simp add: added_trace dataChanges_def)
qed

text \<open>
  Claim C3. For every value passed to the data setter, \<open>null\<close> and \<open>undefined\<close> included:
  if it is strictly equal to \<open>_data\<close>, the state is unchanged (nothing is pushed).
  Otherwise, if an instance exists, the value is pushed into it with \<open>setData\<close> and \<open>_data\<close>
  becomes the value read back from the instance afterwards (the echo, whatever the input
  was). If no instance exists, the value is stored in \<open>_data\<close> and nothing else changes.
\<close>

theorem set_data_cases:
  "(v = priv_data s \<longrightarrow> set_data v echo s = s) \<and>
   (v \<noteq> priv_data s \<longrightarrow> editorInstance s = Some a \<longrightarrow>
      added s (set_data v echo s) = [EdSetData a v False] \<and>
      content (editors (set_data v echo s) a) = echo \<and>
      priv_data (set_data v echo s) = Val (content (editors (set_data v echo s) a)) \<and>
      editorInstance (set_data v echo s) = Some a) \<and>
   (v \<noteq> priv_data s \<longrightarrow> editorInstance s = None \<longrightarrow>
      set_data v echo s = s\<lparr>priv_data := v\<rparr>)"
  by (simp add: set_data_def lib_defs added_def Let_def)

text \<open>
  On \<open>constructed\<close>, whose \<open>_data\<close> is null, setting null does nothing, while \<open>undefined\<close> and
  a string are stored. On \<open>live\<close>, whose \<open>_data\<close> is null too, a string and \<open>undefined\<close> are
  both pushed, and \<open>_data\<close> becomes the editor's echo.
\<close>

theorem set_data_cases_witness:
  "set_data Null ''x'' constructed = constructed \<and>
   set_data Undefined ''x'' constructed = constructed\<lparr>priv_data := Undefined\<rparr> \<and>
   set_data (Val ''a'') ''b'' constructed = constructed\<lparr>priv_data := Val ''a''\<rparr> \<and>
   added live (set_data (Val ''<b>x</b>'') ''<strong>x</strong>'' live)
     = [EdSetData 0 (Val ''<b>x</b>'') False] \<and>
   priv_data (set_data (Val ''<b>x</b>'') ''<strong>x</strong>'' live) = Val ''<strong>x</strong>'' \<and>
   added live (set_data Undefined [] live) = [EdSetData 0 Undefined False] \<and>
   priv_data (set_data Undefined [] live) = Val []"
  using set_data_cases[of Null constructed "''x''"]
    set_data_cases[of Undefined constructed "''x''"]
    set_data_cases[of "Val ''a''" constructed "''b''"]
    set_data_cases[of "Val ''<b>x</b>''" live "''<strong>x</strong>''" 0]
    set_data_cases[of Undefined live "[]" 0]
  by (simp add: live_fields) (simp add: constructed_def)

text \<open>
  Claim C4. When the resolution continuation runs on a destroyed component it returns at
  once: the state is unchanged, so nothing is created and nothing is thrown. Moreover, if
  the component is torn down before any resolution has arrived, then whatever happens
  afterwards (the resolution included) no editor object is ever made, \<open>this.instance\<close>
  stays unset, and the trace never holds a call that creates an editor nor an uncaught
  exception.
\<close>

theorem destroyed_before_resolution:
  "(priv_destroyed s \<longrightarrow> thenCallback c ro undo s = s) \<and>
   (filter is_resolved pre = [] \<longrightarrow>
      priv_destroyed (run (pre @ EvOnDestroy # post) constructed) \<and>
      created (run (pre @ EvOnDestroy # post) constructed) = 0 \<and>
      editorInstance (run (pre @ EvOnDestroy # post) constructed) = None \<and>
      list_all harmless (trace (run (pre @ EvOnDestroy # post) constructed)))"
proof (intro conjI impI)
  assume "priv_destroyed s"
  then show "thenCallback c ro undo s = s" by (simp add: thenCallback_def)
next
  assume pre: "filter is_resolved pre = []"
  let ?s1 = "run pre constructed"
  let ?s2 = "step EvOnDestroy ?s1"
  have c0: "created constructed = 0" "editorInstance constructed = None" "trace constructed = []"
    by (simp_all add: constructed_def)
  from run_unresolved_without_editor[OF c0(1,2) pre] obtain t where
    s1: "created ?s1 = 0" "editorInstance ?s1 = None" "trace ?s1 = t" "list_all harmless t"
    using c0(3) by auto
  have s2: "created ?s2 = 0" "editorInstance ?s2 = None" "priv_destroyed ?s2"
    "trace ?s2 = t @ [OutsideEnter, OutsideLeave]"
    using s1 by (simp_all add: ngOnDestroy_def ngOnDestroy_states_def Let_def emit_def)
  from run_destroyed_without_editor[OF s2(1,2,3), of post] obtain u where
    s3: "created (run post ?s2) = 0" "editorInstance (run post ?s2) = None"
      "priv_destroyed (run post ?s2)" "trace (run post ?s2) = trace ?s2 @ u"
      "list_all harmless u"
    by auto
  have h: "list_all harmless (trace (run post ?s2))"
    using s3(4,5) s2(4) s1(4) by (simp add: harmless_def)
  show "priv_destroyed (run (pre @ EvOnDestroy # post) constructed)"
    using s3 by simp
  show "created (run (pre @ EvOnDestroy # post) constructed) = 0"
    using s3 by simp
  show "editorInstance (run (pre @ EvOnDestroy # post) constructed) = None"
    using s3 by simp
  show "list_all harmless (trace (run (pre @ EvOnDestroy # post) constructed))"
    using h by simp
qed

text \<open>
  Data is set and the view initialised; the component is destroyed; then the namespace
  resolves and the library would even report an editor ready.
\<close>

theorem destroyed_before_resolution_witness:
  "priv_destroyed (ngOnDestroy constructed) \<and>
   thenCallback ''x'' False True (ngOnDestroy constructed) = ngOnDestroy constructed \<and>
   filter is_resolved [EvSetData (Val ''a'') [], EvAfterViewInit] = [] \<and>
   created (run ([EvSetData (Val ''a'') [], EvAfterViewInit]
                 @ EvOnDestroy # [EvResolved ''x'' False True, EvInstanceReady 0]) constructed) = 0 \<and>
   editorInstance (run ([EvSetData (Val ''a'') [], EvAfterViewInit]
                 @ EvOnDestroy # [EvResolved ''x'' False True, EvInstanceReady 0]) constructed) = None \<and>
   list_all harmless (trace (run ([EvSetData (Val ''a'') [], EvAfterViewInit]
                 @ EvOnDestroy # [EvResolved ''x'' False True, EvInstanceReady 0]) constructed))"
proof -
  have d: "priv_destroyed (ngOnDestroy constructed)"
    by (simp add: ngOnDestroy_def ngOnDestroy_states_def Let_def emit_def
          constructed_def)
  have f: "filter is_resolved [EvSetData (Val ''a'') [], EvAfterViewInit] = []"
    by simp
  from d f
    destroyed_before_resolution[where s = "ngOnDestroy constructed" and c = "''x''"
      and ro = False and undo = True
      and pre = "[EvSetData (Val ''a'') [], EvAfterViewInit]"
      and post = "[EvResolved ''x'' False True, EvInstanceReady 0]"]
  show ?thesis by blast
qed

text \<open>
  Claim C5. Without an instance the read-only setter only stores its argument in the
  buffer \<open>_readOnly\<close>, and the getter returns the buffer. The \<open>instanceReady\<close> handler makes
  exactly one \<open>setReadOnly\<close> call, with the buffer if the buffer is not null (a buffered
  \<open>undefined\<close> is passed on as it is) and with the editor's own value otherwise, and leaves
  the buffer as it was. With an instance the setter calls \<open>setReadOnly\<close> on it at once
  with its argument and leaves the buffer alone, and the getter returns the editor's
  read-only state. While the instance exists the buffer is not read: overwriting it
  changes neither what the getter returns nor what any step other than an
  \<open>instanceReady\<close> does.
\<close>

theorem readOnly_buffer:
  "(editorInstance s = None \<longrightarrow>
      set_readOnly v s = s\<lparr>priv_readOnly := v\<rparr> \<and> get_readOnly s = priv_readOnly s) \<and>
   (\<exists>s'. instanceReady a s = Inr s' \<and>
      filter is_setReadOnly (added s s')
        = [EdSetReadOnly a (if priv_readOnly s \<noteq> Null
                            then priv_readOnly s
                            else Val (readOnly (editors s a)))] \<and>
      get_readOnly s'
        = Val (readOnlyFlag (if priv_readOnly s \<noteq> Null
                            then priv_readOnly s
                            else Val (readOnly (editors s a)))) \<and>
      priv_readOnly s' = priv_readOnly s) \<and>
   (editorInstance s = Some a \<longrightarrow>
      added s (set_readOnly v s) = [EdSetReadOnly a v] \<and>
      readOnly (editors (set_readOnly v s) a) = readOnlyFlag v \<and>
      get_readOnly (set_readOnly v s) = Val (readOnlyFlag v) \<and>
      priv_readOnly (set_readOnly v s) = priv_readOnly s \<and>
      get_readOnly s = Val (readOnly (editors s a))) \<and>
   (editorInstance s \<noteq> None \<longrightarrow> \<not> is_instanceReady ev \<longrightarrow>
      get_readOnly (s\<lparr>priv_readOnly := x\<rparr>) = get_readOnly s \<and>
      step ev (s\<lparr>priv_readOnly := x\<rparr>) = (step ev s)\<lparr>priv_readOnly := x\<rparr>)"
proof (intro conjI impI)
  assume "editorInstance s = None"
  then show "set_readOnly v s = s\<lparr>priv_readOnly := v\<rparr>"
    and "get_readOnly s = priv_readOnly s"
    by (simp_all add: set_readOnly_def get_readOnly_def)
next
  from instanceReady_readOnly[of a s]
  show "\<exists>s'. instanceReady a s = Inr s' \<and>
      filter is_setReadOnly (added s s')
        = [EdSetReadOnly a (if priv_readOnly s \<noteq> Null
                            then priv_readOnly s
                            else Val (readOnly (editors s a)))] \<and>
      get_readOnly s'
        = Val (readOnlyFlag (if priv_readOnly s \<noteq> Null
                            then priv_readOnly s
                            else Val (readOnly (editors s a)))) \<and>
      priv_readOnly s' = priv_readOnly s"
    by (auto simp: get_readOnly_def)
next
  assume i: "editorInstance s = Some a"
  then show "added s (set_readOnly v s) = [EdSetReadOnly a v]"
    and "readOnly (editors (set_readOnly v s) a) = readOnlyFlag v"
    and "get_readOnly (set_readOnly v s) = Val (readOnlyFlag v)"
    and "priv_readOnly (set_readOnly v s) = priv_readOnly s"
    and "get_readOnly s = Val (readOnly (editors s a))"
    by (simp_all add: set_readOnly_def get_readOnly_def lib_defs added_def)
next
  assume i: "editorInstance s \<noteq> None" and ev: "\<not> is_instanceReady ev"
  from i show "get_readOnly (s\<lparr>priv_readOnly := x\<rparr>) = get_readOnly s"
    by (auto simp: get_readOnly_def)
  from step_rebuffer[OF i ev, of x]
  show "step ev (s\<lparr>priv_readOnly := x\<rparr>) = (step ev s)\<lparr>priv_readOnly := x\<rparr>"
    by (simp add: rebuffer_def)
qed

text \<open>
  At \<open>constructed\<close> there is no instance: the value is buffered. The handshake at \<open>fresh\<close>
  (null buffer) applies the editor's own value, the handshake at \<open>guarded\<close> the buffered
  \<open>true\<close>, the handshake at \<open>unset\<close> the buffered \<open>undefined\<close>. At \<open>live\<close> the setter goes to
  the editor, and a native event does the same whatever the buffer holds.
\<close>

theorem readOnly_buffer_witness:
  "editorInstance constructed = None \<and>
   set_readOnly (Val True) constructed = constructed\<lparr>priv_readOnly := Val True\<rparr> \<and>
   (\<exists>s'. instanceReady 0 fresh = Inr s' \<and>
      filter is_setReadOnly (added fresh s') = [EdSetReadOnly 0 (Val False)] \<and>
      get_readOnly s' = Val False \<and> priv_readOnly s' = Null) \<and>
   (\<exists>s'. instanceReady 0 guarded = Inr s' \<and>
      filter is_setReadOnly (added guarded s') = [EdSetReadOnly 0 (Val True)] \<and>
      get_readOnly s' = Val True \<and> priv_readOnly s' = Val True) \<and>
   (\<exists>s'. instanceReady 0 unset = Inr s' \<and>
      filter is_setReadOnly (added unset s') = [EdSetReadOnly 0 Undefined] \<and>
      priv_readOnly s' = Undefined) \<and>
   editorInstance live = Some 0 \<and>
   added live (set_readOnly (Val True) live) = [EdSetReadOnly 0 (Val True)] \<and>
   get_readOnly (set_readOnly (Val True) live) = Val True \<and>
   priv_readOnly (set_readOnly (Val True) live) = Null \<and>
   step (EvNative 0 ''change'' ''<p>b</p>'') (live\<lparr>priv_readOnly := Val True\<rparr>)
     = (step (EvNative 0 ''change'' ''<p>b</p>'') live)\<lparr>priv_readOnly := Val True\<rparr>"
proof -
  have c: "editorInstance constructed = None" by (simp add: constructed_def)
  have n: "\<not> is_instanceReady (EvNative 0 ''change'' ''<p>b</p>'')" by simp
  have l: "editorInstance live \<noteq> None" by (simp add: live_fields)
  have g: "priv_readOnly guarded = Val True" "readOnly (editors guarded 0) = False"
    by (simp_all add: guarded_def run_def constructed_def method_defs lib_defs Let_def)
  from readOnly_buffer[where s = constructed and v = "Val True" and a = 0] c
  have 1: "set_readOnly (Val True) constructed = constructed\<lparr>priv_readOnly := Val True\<rparr>"
    by blast
  from readOnly_buffer[where s = fresh and a = 0]
  have 2: "\<exists>s'. instanceReady 0 fresh = Inr s' \<and>
      filter is_setReadOnly (added fresh s') = [EdSetReadOnly 0 (Val False)] \<and>
      get_readOnly s' = Val False \<and> priv_readOnly s' = Null"
    by (simp add: fresh_fields)
  from readOnly_buffer[where s = guarded and a = 0]
  have 3: "\<exists>s'. instanceReady 0 guarded = Inr s' \<and>
      filter is_setReadOnly (added guarded s') = [EdSetReadOnly 0 (Val True)] \<and>
      get_readOnly s' = Val True \<and> priv_readOnly s' = Val True"
    by (simp add: g)
  from readOnly_buffer[where s = unset and a = 0]
  have 4: "\<exists>s'. instanceReady 0 unset = Inr s' \<and>
      filter is_setReadOnly (added unset s') = [EdSetReadOnly 0 Undefined] \<and>
      priv_readOnly s' = Undefined"
    by (auto simp: unset_fields)
  from readOnly_buffer[where s = live and v = "Val True" and a = 0 and x = "Val True"
      and ev = "EvNative 0 ''change'' ''<p>b</p>''"] n l
  have 5: "added live (set_readOnly (Val True) live) = [EdSetReadOnly 0 (Val True)]"
    "get_readOnly (set_readOnly (Val True) live) = Val True"
    "priv_readOnly (set_readOnly (Val True) live) = Null"
    "step (EvNative 0 ''change'' ''<p>b</p>'') (live\<lparr>priv_readOnly := Val True\<rparr>)
     = (step (EvNative 0 ''change'' ''<p>b</p>'') live)\<lparr>priv_readOnly := Val True\<rparr>"
    by (simp_all add: live_fields)
  from c 1 2 3 4 5 show ?thesis by (simp add: live_fields)
qed

text \<open>
  Claim C6. \<open>subscribe\<close>, called on the editor that is the component's instance, appends
  to the editor's listeners the nine relays, then \<open>propagateChange\<close> for \<open>dataReady\<close>, then
  \<open>propagateChange\<close> for \<open>change\<close> if the instance has an undo manager and for
  \<open>selectionCheck\<close> if it has none. So the shared handler is bound to \<open>dataReady\<close> always,
  and to exactly one of \<open>change\<close> and \<open>selectionCheck\<close>: to \<open>change\<close> precisely when the undo
  manager is present.
\<close>

theorem subscribe_bindings:
  assumes "editorInstance s = Some a"
  shows "\<exists>s'. subscribe a s = Inr s' \<and>
     listeners (editors s' a)
       = listeners (editors s a) @ subscriptions (undoManager (editors s a) \<noteq> None) \<and>
     added s s'
       = map (\<lambda>(n, h). EdOn a n h) (subscriptions (undoManager (editors s a) \<noteq> None)) \<and>
     filter (\<lambda>(n, h). h = PropagateChange) (subscriptions (undoManager (editors s a) \<noteq> None))
       = [(''dataReady'', PropagateChange),
          (if undoManager (editors s a) \<noteq> None then ''change'' else ''selectionCheck'',
           PropagateChange)] \<and>
     (((''change'', PropagateChange)
         \<in> set (subscriptions (undoManager (editors s a) \<noteq> None)))
        = (undoManager (editors s a) \<noteq> None)) \<and>
     (((''selectionCheck'', PropagateChange)
         \<in> set (subscriptions (undoManager (editors s a) \<noteq> None)))
        = (undoManager (editors s a) = None))"
  using subscribe_result[OF assms]
  by (auto simp: subscriptions_def relays_def)

text \<open>The editor of \<open>fresh\<close> has the undo plugin: \<open>change\<close> is bound, \<open>selectionCheck\<close> is not.\<close>

theorem subscribe_bindings_witness:
  "editorInstance (fresh\<lparr>editorInstance := Some 0\<rparr>) = Some 0 \<and>
   (\<exists>s'. subscribe 0 (fresh\<lparr>editorInstance := Some 0\<rparr>) = Inr s' \<and>
      filter (\<lambda>(n, h). h = PropagateChange) (listeners (editors s' 0))
        = [(''dataReady'', PropagateChange), (''change'', PropagateChange)])"
proof -
  have l: "listeners (editors fresh 0) = []"
    by (simp add: fresh_def run_def constructed_def method_defs lib_defs Let_def)
  from subscribe_bindings[of "fresh\<lparr>editorInstance := Some 0\<rparr>" 0] l
  show ?thesis
    by (auto simp: fresh_fields)
qed

text \<open>
  Claim C7, as amended. \<open>ngOnDestroy\<close> passes through five states. In every one of them
  \<open>_destroyed\<close> is set: the first statement sets the flag and changes nothing else, and the
  instance is still held, with nothing called, in that state; the \<open>destroy\<close> call comes
  third and the reference is cleared fourth. After \<open>ngOnDestroy\<close> the flag is set and the
  reference is null; an instance that was held has been destroyed by one \<open>destroy\<close> call.
  The reference is stored by the first statement of the \<open>instanceReady\<close> handler, so it is
  non-null as soon as the handler returns, also when the handshake is still waiting for
  its push to complete. In every run of a component in which the library delivers no
  \<open>instanceReady\<close> after a teardown, the reference is non-null only if an \<open>instanceReady\<close>
  for that editor has been handled and no teardown has happened, and once a teardown
  has happened the reference is null, whatever follows.
\<close>

theorem teardown_and_instance:
  "list_all priv_destroyed (ngOnDestroy_states s) \<and>
   hd (ngOnDestroy_states s) = s\<lparr>priv_destroyed := True\<rparr> \<and>
   map editorInstance (ngOnDestroy_states s)
     = [editorInstance s, editorInstance s, editorInstance s, None, None] \<and>
   map (added s) (ngOnDestroy_states s)
     = (case editorInstance s of
          Some i \<Rightarrow> [[], [OutsideEnter], [OutsideEnter, EdDestroy i],
                     [OutsideEnter, EdDestroy i], [OutsideEnter, EdDestroy i, OutsideLeave]]
        | None \<Rightarrow> [[], [OutsideEnter], [OutsideEnter], [OutsideEnter],
                   [OutsideEnter, OutsideLeave]]) \<and>
   ngOnDestroy s = last (ngOnDestroy_states s) \<and>
   priv_destroyed (ngOnDestroy s) \<and> editorInstance (ngOnDestroy s) = None \<and>
   (editorInstance s = Some i \<longrightarrow>
      added s (ngOnDestroy s) = [OutsideEnter, EdDestroy i, OutsideLeave] \<and>
      status (editors (ngOnDestroy s) i) = Destroyed) \<and>
   (\<exists>s'. instanceReady a s = Inr s' \<and> editorInstance s' = Some a) \<and>
   (no_late_ready evs \<longrightarrow>
      (editorInstance (run evs constructed) = Some a \<longrightarrow>
         EvInstanceReady a \<in> set evs \<and> EvOnDestroy \<notin> set evs) \<and>
      (EvOnDestroy \<in> set evs \<longrightarrow> editorInstance (run evs constructed) = None))"
proof (intro conjI impI)
  show "list_all priv_destroyed (ngOnDestroy_states s)"
    by (rule ngOnDestroy_states_flag)
  show "hd (ngOnDestroy_states s) = s\<lparr>priv_destroyed := True\<rparr>"
    by (rule ngOnDestroy_states_first)
  show "map editorInstance (ngOnDestroy_states s)
     = [editorInstance s, editorInstance s, editorInstance s, None, None]"
    by (rule ngOnDestroy_states_instance)
  show "map (added s) (ngOnDestroy_states s)
     = (case editorInstance s of
          Some i \<Rightarrow> [[], [OutsideEnter], [OutsideEnter, EdDestroy i],
                     [OutsideEnter, EdDestroy i], [OutsideEnter, EdDestroy i, OutsideLeave]]
        | None \<Rightarrow> [[], [OutsideEnter], [OutsideEnter], [OutsideEnter],
                   [OutsideEnter, OutsideLeave]])"
    by (rule ngOnDestroy_states_calls)
  show "ngOnDestroy s = last (ngOnDestroy_states s)"
    by (simp add: ngOnDestroy_def)
  show "priv_destroyed (ngOnDestroy s)"
    by (simp add: ngOnDestroy_def ngOnDestroy_states_def Let_def lib_defs split: option.splits)
  show "editorInstance (ngOnDestroy s) = None"
    by (simp add: ngOnDestroy_def ngOnDestroy_states_def Let_def lib_defs split: option.splits)
  show "\<exists>s'. instanceReady a s = Inr s' \<and> editorInstance s' = Some a"
    using instanceReady_fields[of a s] by blast
next
  assume "editorInstance s = Some i"
  then show "added s (ngOnDestroy s) = [OutsideEnter, EdDestroy i, OutsideLeave]"
    and "status (editors (ngOnDestroy s) i) = Destroyed"
    by (simp_all add: ngOnDestroy_def ngOnDestroy_states_def Let_def lib_defs added_def)
next
  assume "no_late_ready evs" and "editorInstance (run evs constructed) = Some a"
  from instance_means_ready[OF this]
  show "EvInstanceReady a \<in> set evs" and "EvOnDestroy \<notin> set evs"
    by simp_all
next
  assume n: "no_late_ready evs" and d: "EvOnDestroy \<in> set evs"
  show "editorInstance (run evs constructed) = None"
  proof (cases "editorInstance (run evs constructed)")
    case None
    then show ?thesis .
  next
    case (Some b)
    from instance_means_ready[OF n Some] d show ?thesis by simp
  qed
qed

text \<open>
  The component \<open>live\<close> holds editor 0: its run contains the \<open>instanceReady\<close> event of that
  editor and no teardown. Tearing it down destroys the editor and clears the reference,
  and in the run extended by the teardown and a later native event the reference is null.
\<close>

theorem teardown_and_instance_witness:
  "editorInstance live = Some 0 \<and>
   added live (ngOnDestroy live) = [OutsideEnter, EdDestroy 0, OutsideLeave] \<and>
   status (editors (ngOnDestroy live) 0) = Destroyed \<and>
   editorInstance (ngOnDestroy live) = None \<and>
   map priv_destroyed (ngOnDestroy_states live) = [True, True, True, True, True] \<and>
   map editorInstance (ngOnDestroy_states live) = [Some 0, Some 0, Some 0, None, None] \<and>
   no_late_ready [EvAfterViewInit, EvResolved ''<p>a</p>'' False True, EvInstanceReady 0] \<and>
   editorInstance
     (run [EvAfterViewInit, EvResolved ''<p>a</p>'' False True, EvInstanceReady 0] constructed)
     = Some 0 \<and>
   EvInstanceReady 0
     \<in> set [EvAfterViewInit, EvResolved ''<p>a</p>'' False True, EvInstanceReady 0] \<and>
   no_late_ready [EvAfterViewInit, EvResolved ''<p>a</p>'' False True, EvInstanceReady 0,
                  EvOnDestroy, EvNative 0 ''change'' []] \<and>
   EvOnDestroy \<in> set [EvAfterViewInit, EvResolved ''<p>a</p>'' False True, EvInstanceReady 0,
                        EvOnDestroy, EvNative 0 ''change'' []] \<and>
   editorInstance
     (run [EvAfterViewInit, EvResolved ''<p>a</p>'' False True, EvInstanceReady 0,
           EvOnDestroy, EvNative 0 ''change'' []] constructed) = None"
proof -
  have l: "editorInstance live = Some 0" by (simp add: live_fields)
  have r: "editorInstance
     (run [EvAfterViewInit, EvResolved ''<p>a</p>'' False True, EvInstanceReady 0] constructed)
     = Some 0"
    using l by (simp only: live_def)
  have n1: "no_late_ready [EvAfterViewInit, EvResolved ''<p>a</p>'' False True, EvInstanceReady 0]"
    by simp
  have n2: "no_late_ready [EvAfterViewInit, EvResolved ''<p>a</p>'' False True, EvInstanceReady 0,
                  EvOnDestroy, EvNative 0 ''change'' []]"
    by simp
  have d: "EvOnDestroy \<in> set [EvAfterViewInit, EvResolved ''<p>a</p>'' False True,
                        EvInstanceReady 0, EvOnDestroy, EvNative 0 ''change'' []]"
    by simp
  from teardown_and_instance[where s = live and i = 0 and a = 0
      and evs = "[EvAfterViewInit, EvResolved ''<p>a</p>'' False True, EvInstanceReady 0]"] l r n1
  have 1: "added live (ngOnDestroy live) = [OutsideEnter, EdDestroy 0, OutsideLeave]"
    "status (editors (ngOnDestroy live) 0) = Destroyed"
    "editorInstance (ngOnDestroy live) = None"
    "list_all priv_destroyed (ngOnDestroy_states live)"
    "map editorInstance (ngOnDestroy_states live)
       = [editorInstance live, editorInstance live, editorInstance live, None, None]"
    "EvInstanceReady 0
       \<in> set [EvAfterViewInit, EvResolved ''<p>a</p>'' False True, EvInstanceReady 0]"
    by blast+
  from 1(5) l
  have 4: "map editorInstance (ngOnDestroy_states live) = [Some 0, Some 0, Some 0, None, None]"
    by simp
  have len: "length (ngOnDestroy_states live) = 5"
    by (simp add: ngOnDestroy_states_def Let_def)
  from 1(4) len have 2: "map priv_destroyed (ngOnDestroy_states live) = [True, True, True, True, True]"
    by (auto simp: list_all_iff length_Suc_conv numeral_eq_Suc)
  from teardown_and_instance[where s = live and i = 0 and a = 0
      and evs = "[EvAfterViewInit, EvResolved ''<p>a</p>'' False True, EvInstanceReady 0,
                  EvOnDestroy, EvNative 0 ''change'' []]"] n2 d
  have 3: "editorInstance
     (run [EvAfterViewInit, EvResolved ''<p>a</p>'' False True, EvInstanceReady 0,
           EvOnDestroy, EvNative 0 ''change'' []] constructed) = None"
    by blast
  from l r n1 n2 d 1(1,2,3,6) 2 3 4 show ?thesis by blast
qed

text \<open>
  Claim C7 as stated fails: at \<open>pushing\<close> the \<open>instanceReady\<close> handler has returned and the
  reference is non-null, but the creation handshake has not completed: the push is
  still pending and no ready notification has been emitted.
\<close>

theorem instance_during_handshake_counterexample:
  "editorInstance pushing \<noteq> None \<and> callbacks (editors pushing 0) = 1 \<and>
   count_list (trace pushing) (Emit Ready) = 0"
  by (simp add: pushing_fields)

text \<open>
  Claim C8. The rejection continuation only writes the reason to the console: the state
  is otherwise unchanged and nothing is thrown. If a component that waits for its one
  resolution, with no editor object made, receives the rejection, then as long as
  \<open>ngAfterViewInit\<close> is not called again no later event makes an editor: no resolution is
  pending any more, no editor object exists, \<open>this.instance\<close> stays unset, and everything
  added to the trace from the rejection on is neither the creation of an editor nor an
  uncaught exception.
\<close>

theorem rejection_is_final:
  "catchCallback reason s = s\<lparr>trace := trace s @ [ConsoleError reason]\<rparr> \<and>
   (resolutions s = 1 \<longrightarrow> created s = 0 \<longrightarrow> editorInstance s = None \<longrightarrow>
    EvAfterViewInit \<notin> set post \<longrightarrow>
      added s (step (EvRejected reason) s) = [ConsoleError reason] \<and>
      resolutions (run (EvRejected reason # post) s) = 0 \<and>
      created (run (EvRejected reason # post) s) = 0 \<and>
      editorInstance (run (EvRejected reason # post) s) = None \<and>
      list_all harmless (added s (run (EvRejected reason # post) s)))"
proof (intro conjI impI)
  show "catchCallback reason s = s\<lparr>trace := trace s @ [ConsoleError reason]\<rparr>"
    by (simp add: catchCallback_def emit_def)
next
  assume a: "resolutions s = 1" "created s = 0" "editorInstance s = None"
    "EvAfterViewInit \<notin> set post"
  let ?s1 = "step (EvRejected reason) s"
  have s1: "created ?s1 = 0" "editorInstance ?s1 = None" "resolutions ?s1 = 0"
    "trace ?s1 = trace s @ [ConsoleError reason]"
    using a by (simp_all add: catchCallback_def emit_def)
  from run_settled_without_editor[OF s1(1,2,3) a(4)] obtain t where
    s2: "created (run post ?s1) = 0" "editorInstance (run post ?s1) = None"
      "resolutions (run post ?s1) = 0" "trace (run post ?s1) = trace ?s1 @ t"
      "list_all harmless t"
    by auto
  show "added s (step (EvRejected reason) s) = [ConsoleError reason]"
    using s1(4) by (simp add: added_def)
  show "resolutions (run (EvRejected reason # post) s) = 0"
    using s2 by simp
  show "created (run (EvRejected reason # post) s) = 0"
    using s2 by simp
  show "editorInstance (run (EvRejected reason # post) s) = None"
    using s2 by simp
  show "list_all harmless (added s (run (EvRejected reason # post) s))"
    using s2(4,5) s1(4) by (simp add: added_def harmless_def)
qed

text \<open>
  The view of a new component is initialised and the namespace promise rejects; a
  resolution, an \<open>instanceReady\<close> and a data write that come later change nothing of this.
\<close>

theorem rejection_is_final_witness:
  "resolutions (ngAfterViewInit constructed) = 1 \<and>
   created (ngAfterViewInit constructed) = 0 \<and>
   editorInstance (ngAfterViewInit constructed) = None \<and>
   EvAfterViewInit \<notin> set [EvResolved ''x'' False True, EvInstanceReady 0,
                             EvSetData (Val ''a'') ''a''] \<and>
   added (ngAfterViewInit constructed)
     (step (EvRejected ''404'') (ngAfterViewInit constructed)) = [ConsoleError ''404''] \<and>
   created (run (EvRejected ''404'' # [EvResolved ''x'' False True, EvInstanceReady 0,
                                        EvSetData (Val ''a'') ''a''])
              (ngAfterViewInit constructed)) = 0 \<and>
   editorInstance (run (EvRejected ''404'' # [EvResolved ''x'' False True, EvInstanceReady 0,
                                        EvSetData (Val ''a'') ''a''])
              (ngAfterViewInit constructed)) = None"
proof -
  have h: "resolutions (ngAfterViewInit constructed) = 1"
    "created (ngAfterViewInit constructed) = 0"
    "editorInstance (ngAfterViewInit constructed) = None"
    by (simp_all add: ngAfterViewInit_def emit_def constructed_def)
  have p: "EvAfterViewInit \<notin> set [EvResolved ''x'' False True, EvInstanceReady 0,
                             EvSetData (Val ''a'') ''a'']"
    by simp
  from h p rejection_is_final[where s = "ngAfterViewInit constructed" and reason = "''404''"
      and post = "[EvResolved ''x'' False True, EvInstanceReady 0, EvSetData (Val ''a'') ''a'']"]
  show ?thesis by blast
qed

text \<open>
  Claim C9. The forms write path \<open>writeValue\<close> is the data setter: for every value, state
  and echo of the instance, both give the same state, hence the same push into the
  instance and the same read-back.
\<close>

theorem writeValue_is_set_data: "writeValue v echo s = set_data v echo s"
  by (simp add: writeValue_def)

text \<open>
  Claim C10. Tearing down a component that holds an instance makes the read-only getter
  return the buffer \<open>_readOnly\<close> again. The buffer is never cleared: if the component has
  no instance, an editor becomes ready, and any events other than a teardown follow,
  then after the teardown the getter returns what the buffer held before the editor
  became ready, whatever the editor's own read-only state was in between. A component
  on which the read-only setter was never called has a null buffer.
\<close>

theorem readOnly_after_teardown:
  "(editorInstance s = Some a \<longrightarrow> get_readOnly (ngOnDestroy s) = priv_readOnly s) \<and>
   (editorInstance s = None \<longrightarrow> a < created s \<longrightarrow> status (editors s a) = Unloaded \<longrightarrow>
    EvOnDestroy \<notin> set mid \<longrightarrow>
      get_readOnly (run (EvInstanceReady a # mid @ [EvOnDestroy]) s) = priv_readOnly s \<and>
      get_readOnly (run (EvInstanceReady a # mid @ [EvOnDestroy]) s) = get_readOnly s) \<and>
   (filter is_setReadOnlyEvent evs = [] \<longrightarrow> priv_readOnly (run evs constructed) = Null)"
proof (intro conjI impI)
  assume "editorInstance s = Some a"
  then show "get_readOnly (ngOnDestroy s) = priv_readOnly s"
    by (simp add: get_readOnly_def ngOnDestroy_def ngOnDestroy_states_def Let_def lib_defs)
next
  assume a: "editorInstance s = None" "a < created s" "status (editors s a) = Unloaded"
    "EvOnDestroy \<notin> set mid"
  let ?s1 = "step (EvInstanceReady a) s"
  let ?s2 = "run mid ?s1"
  have i1: "editorInstance ?s1 \<noteq> None"
    unfolding step_instance using a(2,3) by simp
  have b1: "priv_readOnly ?s1 = priv_readOnly s"
    unfolding step_buffer_value by simp
  from run_while_instance[OF i1 a(4)] b1
  have s2: "priv_readOnly ?s2 = priv_readOnly s" by simp
  have "get_readOnly (step EvOnDestroy ?s2) = priv_readOnly ?s2"
    by (simp add: get_readOnly_def ngOnDestroy_def ngOnDestroy_states_def Let_def lib_defs
             split: option.splits)
  with s2 show r: "get_readOnly (run (EvInstanceReady a # mid @ [EvOnDestroy]) s) = priv_readOnly s"
    by simp
  from a(1) have "get_readOnly s = priv_readOnly s" by (simp add: get_readOnly_def)
  with r show "get_readOnly (run (EvInstanceReady a # mid @ [EvOnDestroy]) s) = get_readOnly s"
    by simp
next
  assume "filter is_setReadOnlyEvent evs = []"
  from run_never_buffered[OF this, of constructed]
  show "priv_readOnly (run evs constructed) = Null"
    by (simp add: constructed_def)
qed

text \<open>
  At \<open>guarded\<close> the buffer holds \<open>true\<close> and the editor is not ready yet. Once it is ready the
  host sets read-only to \<open>false\<close>, which the live getter then returns; after teardown the
  getter returns \<open>true\<close> again.
\<close>

theorem readOnly_after_teardown_witness:
  "editorInstance guarded = None \<and> 0 < created guarded \<and>
   status (editors guarded 0) = Unloaded \<and> EvOnDestroy \<notin> set [EvSetReadOnly (Val False)] \<and>
   get_readOnly (run [EvInstanceReady 0, EvSetReadOnly (Val False)] guarded) = Val False \<and>
   get_readOnly (run (EvInstanceReady 0 # [EvSetReadOnly (Val False)] @ [EvOnDestroy]) guarded)
     = Val True \<and>
   editorInstance live = Some 0 \<and> get_readOnly (ngOnDestroy live) = Null \<and>
   filter is_setReadOnlyEvent [EvAfterViewInit, EvRejected ''404''] = [] \<and>
   priv_readOnly (run [EvAfterViewInit, EvRejected ''404''] constructed) = Null"
proof -
  have g: "editorInstance guarded = None" "0 < created guarded"
    "status (editors guarded 0) = Unloaded" "priv_readOnly guarded = Val True"
    by (simp_all add: guarded_def run_def constructed_def method_defs lib_defs Let_def)
  have m: "EvOnDestroy \<notin> set [EvSetReadOnly (Val False)]" by simp
  have v: "get_readOnly (run [EvInstanceReady 0, EvSetReadOnly (Val False)] guarded) = Val False"
    by (simp add: guarded_def run_def constructed_def method_defs lib_defs Let_def)
  have l: "editorInstance live = Some 0" by (simp add: live_fields)
  have f: "filter is_setReadOnlyEvent [EvAfterViewInit, EvRejected ''404''] = []" by simp
  from readOnly_after_teardown[where s = guarded and a = 0 and mid = "[EvSetReadOnly (Val False)]"
      and evs = "[EvAfterViewInit, EvRejected ''404'']"] g m f
  have 1: "get_readOnly (run (EvInstanceReady 0 # [EvSetReadOnly (Val False)] @ [EvOnDestroy]) guarded)
     = Val True"
    "priv_readOnly (run [EvAfterViewInit, EvRejected ''404''] constructed) = Null"
    by simp_all
  from readOnly_after_teardown[where s = live and a = 0 and mid = "[]" and evs = "[]"] l
  have 2: "get_readOnly (ngOnDestroy live) = Null"
    by (simp add: live_fields)
  from g m v l f 1 2 show ?thesis by blast
qed

end
